theory Spec2Isabelle
  imports Complex_Main
begin

section \<open>JavaScript values\<close>

text \<open>
  The resolver of \<^verbatim>\<open>src/todo-config.ts\<close> handles values that come from a parsed
  \<^verbatim>\<open>package.json\<close>, from the process environment and from its caller. They are
  modelled as JavaScript values:
  \<^item> a string is a list of code units below 256 (one \<open>char\<close> each);
  \<^item> a number is a double: \<open>NaN\<close>, an infinity, or a finite value, here a rational
    (every finite double is one; the two zeros are not told apart, and nothing the
    resolver does tells them apart);
  \<^item> an object \<open>JObj ps\<close> is the list of its own enumerable data properties in insertion
    order, read with the first entry of a key; its prototype is \<^verbatim>\<open>Object.prototype\<close>.
    An own key may be \<^verbatim>\<open>__proto__\<close>: \<^verbatim>\<open>JSON.parse\<close> makes such a property;
  \<^item> an object \<open>JProto p ps\<close> has the own properties \<open>ps\<close> and the prototype \<open>p\<close>, an
    object or \<^verbatim>\<open>null\<close>: what an assignment to \<^verbatim>\<open>__proto__\<close> makes of an object.
  Properties are data properties; the built-in prototypes are the language's own.
\<close>

datatype jsnum = NaN | PosInf | NegInf | Fin rat

datatype jsval =
    JUndefined
  | JNull
  | JBool bool
  | JNum jsnum
  | JStr string
  | JArr "jsval list"
  | JObj "(string \<times> jsval) list"
  | JProto jsval "(string \<times> jsval) list"

type_synonym props = "(string \<times> jsval) list"

text \<open>The \<^verbatim>\<open>typeof\<close> operator.\<close>

fun typeof :: "jsval \<Rightarrow> string" where
  "typeof JUndefined = ''undefined''"
| "typeof JNull = ''object''"
| "typeof (JBool b) = ''boolean''"
| "typeof (JNum n) = ''number''"
| "typeof (JStr s) = ''string''"
| "typeof (JArr xs) = ''object''"
| "typeof (JObj ps) = ''object''"
| "typeof (JProto p ps) = ''object''"

fun is_object :: "jsval \<Rightarrow> bool" where
  "is_object (JArr xs) = True"
| "is_object (JObj ps) = True"
| "is_object (JProto p ps) = True"
| "is_object v = False"

text \<open>The two shapes of a record, and its own properties.\<close>

fun is_record :: "jsval \<Rightarrow> bool" where
  "is_record (JObj ps) = True"
| "is_record (JProto p ps) = True"
| "is_record v = False"

fun own_props :: "jsval \<Rightarrow> props" where
  "own_props (JObj ps) = ps"
| "own_props (JProto p ps) = ps"
| "own_props v = []"

text \<open>The relational operators on numbers: every comparison with \<open>NaN\<close> is false.\<close>

fun num_ge :: "jsnum \<Rightarrow> jsnum \<Rightarrow> bool" where
  "num_ge NaN y = False"
| "num_ge x NaN = False"
| "num_ge PosInf y = True"
| "num_ge x NegInf = True"
| "num_ge NegInf y = False"
| "num_ge x PosInf = False"
| "num_ge (Fin a) (Fin b) = (b \<le> a)"

fun num_lt :: "jsnum \<Rightarrow> jsnum \<Rightarrow> bool" where
  "num_lt NaN y = False"
| "num_lt x NaN = False"
| "num_lt x NegInf = False"
| "num_lt PosInf y = False"
| "num_lt NegInf y = True"
| "num_lt x PosInf = True"
| "num_lt (Fin a) (Fin b) = (a < b)"

text \<open>The decimal name of an array index, as a property key.\<close>

fun decimal :: "nat \<Rightarrow> string" where
  "decimal n =
     (if n < 10 then [''0123456789'' ! n]
      else decimal (n div 10) @ [''0123456789'' ! (n mod 10)])"

declare decimal.simps [simp del]

text \<open>
  The own enumerable string keys of a value (\<^verbatim>\<open>Object.keys\<close>, and the keys
  \<^verbatim>\<open>Object.assign\<close> copies from a source): the keys of an object, the indices of an
  array or of a string, none for the other primitives.
\<close>

fun own_keys :: "jsval \<Rightarrow> string list" where
  "own_keys (JObj ps) = remdups (map fst ps)"
| "own_keys (JProto p ps) = remdups (map fst ps)"
| "own_keys (JArr xs) = map decimal [0..<length xs]"
| "own_keys (JStr s) = map decimal [0..<length s]"
| "own_keys v = []"

text \<open>
  Reading a property \<open>v[k]\<close> of a value that is neither \<^verbatim>\<open>undefined\<close> nor
  \<^verbatim>\<open>null\<close>: the own property, or else the one of the prototype \<open>p\<close> of a
  \<open>JProto p ps\<close>. The built-in prototypes give nothing: the resolver reads the keys
  \<^verbatim>\<open>lintTodo\<close>, \<^verbatim>\<open>daysToDecay\<close>, \<^verbatim>\<open>warn\<close>, \<^verbatim>\<open>error\<close> and the own keys of the
  merge sources, and no built-in prototype defines the first four.
\<close>

fun get_prop :: "jsval \<Rightarrow> string \<Rightarrow> jsval" where
  "get_prop (JObj ps) k = (case map_of ps k of Some v \<Rightarrow> v | None \<Rightarrow> JUndefined)"
| "get_prop (JProto p ps) k =
     (case map_of ps k of
        Some v \<Rightarrow> v
      | None \<Rightarrow> if is_object p then get_prop p k else JUndefined)"
| "get_prop (JArr xs) k =
     (case List.find (\<lambda>i. decimal i = k) [0..<length xs] of
        Some i \<Rightarrow> xs ! i | None \<Rightarrow> JUndefined)"
| "get_prop (JStr s) k =
     (case List.find (\<lambda>i. decimal i = k) [0..<length s] of
        Some i \<Rightarrow> JStr [s ! i] | None \<Rightarrow> JUndefined)"
| "get_prop v k = JUndefined"

text \<open>Optional chaining \<open>v?.k\<close>.\<close>

definition opt_chain :: "jsval \<Rightarrow> string \<Rightarrow> jsval" where
  "opt_chain v k = (if v = JUndefined \<or> v = JNull then JUndefined else get_prop v k)"

text \<open>
  Defining or updating an own data property: an existing property keeps its place, a
  new one is added at the end.
\<close>

fun put :: "string \<Rightarrow> jsval \<Rightarrow> props \<Rightarrow> props" where
  "put k v [] = [(k, v)]"
| "put k v ((k', v') # ps) = (if k = k' then (k, v) # ps else (k', v') # put k v ps)"

text \<open>
  The assignment \<open>target[k] = v\<close>. It looks for the property \<open>k\<close> on the target and
  then along its prototype chain. A data property found there, or none at all,
  makes \<open>k\<close> an own data property of the target. The one accessor on the way is
  \<^verbatim>\<open>__proto__\<close> of \<^verbatim>\<open>Object.prototype\<close>: its setter makes an object or \<^verbatim>\<open>null\<close> the
  prototype of the target and ignores any other value. So \<open>k = __proto__\<close> reaches
  the setter when neither the target nor an object of its chain has an own
  \<^verbatim>\<open>__proto__\<close> and the chain ends in \<^verbatim>\<open>Object.prototype\<close>.
\<close>

fun has_own :: "jsval \<Rightarrow> string \<Rightarrow> bool" where
  "has_own (JObj ps) k = (k \<in> set (map fst ps))"
| "has_own (JProto p ps) k = (k \<in> set (map fst ps))"
| "has_own v k = (k \<in> set (own_keys v))"

fun in_chain :: "jsval \<Rightarrow> string \<Rightarrow> bool" where
  "in_chain (JProto p ps) k = (k \<in> set (map fst ps) \<or> in_chain p k)"
| "in_chain v k = has_own v k"

fun ends_in_Object_prototype :: "jsval \<Rightarrow> bool" where
  "ends_in_Object_prototype (JProto p ps) = ends_in_Object_prototype p"
| "ends_in_Object_prototype v = is_object v"

definition reaches_setter :: "jsval \<Rightarrow> bool" where
  "reaches_setter target =
     (\<not> in_chain target ''__proto__'' \<and> ends_in_Object_prototype target)"

fun with_prototype :: "jsval \<Rightarrow> jsval \<Rightarrow> jsval" where
  "with_prototype (JObj ps) p = JProto p ps"
| "with_prototype (JProto q ps) p = JProto p ps"
| "with_prototype v p = v"

fun with_own :: "jsval \<Rightarrow> string \<Rightarrow> jsval \<Rightarrow> jsval" where
  "with_own (JObj ps) k v = JObj (put k v ps)"
| "with_own (JProto p ps) k v = JProto p (put k v ps)"
| "with_own t k v = t"

definition set_property :: "jsval \<Rightarrow> string \<Rightarrow> jsval \<Rightarrow> jsval" where
  "set_property target k v =
     (if k = ''__proto__'' \<and> reaches_setter target
      then (if is_object v \<or> v = JNull then with_prototype target v else target)
      else with_own target k v)"

text \<open>
  \<^verbatim>\<open>Object.assign(target, ...sources)\<close>: for each source in turn, for each own
  enumerable key of the source, read the property and assign it to the target.
  \<^verbatim>\<open>undefined\<close> and \<^verbatim>\<open>null\<close> sources have no keys and are skipped.
\<close>

definition assign_from :: "jsval \<Rightarrow> jsval \<Rightarrow> jsval" where
  "assign_from target src =
     foldl (\<lambda>t k. set_property t k (get_prop src k)) target (own_keys src)"

definition Object_assign :: "jsval \<Rightarrow> jsval list \<Rightarrow> jsval" where
  "Object_assign target sources = foldl assign_from target sources"

definition Object_keys :: "jsval \<Rightarrow> string list" where
  "Object_keys obj = own_keys obj"

section \<open>Number.parseInt and Number.isInteger\<close>

definition is_white_space :: "char \<Rightarrow> bool" where
  "is_white_space c = ((of_char c :: nat) \<in> {9, 10, 11, 12, 13, 32, 160})"

definition is_digit :: "char \<Rightarrow> bool" where
  "is_digit c = (48 \<le> (of_char c :: nat) \<and> (of_char c :: nat) \<le> 57)"

definition math_int :: "string \<Rightarrow> int" where
  "math_int Z = foldl (\<lambda>n c. 10 * n + (int (of_char c) - 48)) 0 Z"

text \<open>
  The double nearest to an integer (ties to even, overflow to an infinity): exact below
  \<open>2 ^ 53\<close>; above, the integer keeps its 53 leading bits. \<open>ulp a\<close> is the
  spacing of the doubles around a magnitude \<open>a\<close> of at least \<open>2 ^ 53\<close>.
\<close>

function ulp :: "int \<Rightarrow> int" where
  "ulp a = (if a < 2 ^ 53 then 1 else 2 * ulp (a div 2))"
  by pat_completeness auto
termination
  by (relation "measure nat") auto

declare ulp.simps [simp del]

definition to_float64 :: "int \<Rightarrow> jsnum" where
  "to_float64 n =
     (let a = \<bar>n\<bar> in
      if a < 2 ^ 53 then Fin (of_int n)
      else
        let p = ulp a;
            q = a div p;
            r = a mod p;
            q' = (if p < 2 * r \<or> (2 * r = p \<and> odd q) then q + 1 else q);
            v = q' * p
        in if 2 ^ 1024 \<le> v then (if n < 0 then NegInf else PosInf)
           else Fin (of_int (sgn n * v)))"

text \<open>
  \<^verbatim>\<open>Number.parseInt(s, 10)\<close>: skip leading white space, take an optional sign, take
  the longest prefix of decimal digits; no digit gives \<open>NaN\<close>. (Past 20 significant
  digits the language lets an implementation replace digits by zeros; the model
  keeps them.)
\<close>

definition parseInt10 :: "string \<Rightarrow> jsnum" where
  "parseInt10 inputString =
     (let S = dropWhile is_white_space inputString;
          sign = (if S \<noteq> [] \<and> hd S = CHR ''-'' then - 1 else 1);
          S' = (if S \<noteq> [] \<and> (hd S = CHR ''+'' \<or> hd S = CHR ''-'') then tl S else S);
          Z = takeWhile is_digit S'
      in if Z = [] then NaN else to_float64 (sign * math_int Z))"

fun Number_isInteger :: "jsval \<Rightarrow> bool" where
  "Number_isInteger (JNum (Fin r)) = (of_int \<lfloor>r\<rfloor> = r)"
| "Number_isInteger v = False"

section \<open>The resolver\<close>

text \<open>
  What the resolver reads from outside, and the two library functions it calls whose
  result is not computed here:
  \<^item> \<open>path_join\<close> is \<^verbatim>\<open>path.join\<close>;
  \<^item> \<open>require\<close> is \<^verbatim>\<open>require\<close> on the path of a JSON file, for a module that is
    not in the module cache: the parsed value, or \<open>None\<close> when it throws (no file,
    no valid JSON). The resolver of this section is one call, and \<open>require rt\<close> is
    what \<^verbatim>\<open>require\<close> gives that call; the module cache, which lasts from call to
    call, is in the store of the next section;
  \<^item> \<open>process_env\<close> is \<^verbatim>\<open>process.env\<close>;
  \<^item> \<open>number_to_string\<close> is the conversion of a number to a string in a template
    literal.
\<close>

record runtime =
  path_join :: "string \<Rightarrow> string \<Rightarrow> string"
  require :: "string \<Rightarrow> jsval option"
  process_env :: "string \<Rightarrow> string option"
  number_to_string :: "jsnum \<Rightarrow> string"

datatype error = Error string

text \<open>\<^verbatim>\<open>getEnvVar\<close>: an unset or empty variable is falsy, and the function returns nothing.\<close>

definition getEnvVar :: "runtime \<Rightarrow> string \<Rightarrow> jsval" where
  "getEnvVar rt name =
     (case process_env rt name of
        None \<Rightarrow> JUndefined
      | Some s \<Rightarrow> if s = [] then JUndefined else JNum (parseInt10 s))"

definition getFromEnvVars :: "runtime \<Rightarrow> jsval" where
  "getFromEnvVars rt =
     (let config = [];
          warn = getEnvVar rt ''TODO_DAYS_TO_WARN'';
          error = getEnvVar rt ''TODO_DAYS_TO_ERROR'';
          config = (if Number_isInteger warn then put ''warn'' warn config else config);
          config = (if Number_isInteger error then put ''error'' error config else config)
      in JObj config)"

text \<open>\<^verbatim>\<open>getFromPackageJson\<close>: \<open>pkg\<close> stays \<^verbatim>\<open>undefined\<close> when \<^verbatim>\<open>require\<close> throws.\<close>

definition getFromPackageJson :: "runtime \<Rightarrow> string \<Rightarrow> jsval" where
  "getFromPackageJson rt basePath =
     (let pkg = (case require rt (path_join rt basePath ''package.json'') of
                   None \<Rightarrow> JUndefined
                 | Some v \<Rightarrow> v)
      in opt_chain (opt_chain pkg ''lintTodo'') ''daysToDecay'')"

definition default_config :: props where
  "default_config = [(''warn'', JNum (Fin 30)), (''error'', JNum (Fin 60))]"

definition invalid_message :: "runtime \<Rightarrow> jsnum \<Rightarrow> jsnum \<Rightarrow> string" where
  "invalid_message rt w e =
     ''The provided todo configuration contains invalid values. The `warn` value (''
     @ number_to_string rt w
     @ '') must be less than the `error` value (''
     @ number_to_string rt e
     @ '').''"

text \<open>
  \<^verbatim>\<open>getTodoConfig\<close>. A missing (\<^verbatim>\<open>undefined\<close>) argument takes the parameter's default,
  the empty object. The test \<^verbatim>\<open>typeof x === 'number'\<close> on both fields is the pattern
  \<open>(JNum w, JNum e)\<close>; \<open>Inl\<close> is the thrown error.
\<close>

definition getTodoConfig :: "runtime \<Rightarrow> string \<Rightarrow> jsval \<Rightarrow> error + jsval" where
  "getTodoConfig rt baseDir todoConfig =
     (let todoConfig = (if todoConfig = JUndefined then JObj [] else todoConfig);
          daysToDecayPackageConfig = getFromPackageJson rt baseDir;
          daysToDecayEnvVars = getFromEnvVars rt;
          mergedConfig =
            Object_assign (JObj [])
              [daysToDecayPackageConfig, daysToDecayEnvVars, todoConfig];
          mergedConfig =
            (if length (Object_keys mergedConfig) = 0
                \<and> typeof daysToDecayPackageConfig = ''undefined''
             then JObj default_config
             else mergedConfig)
      in case (get_prop mergedConfig ''warn'', get_prop mergedConfig ''error'') of
           (JNum w, JNum e) \<Rightarrow>
             if num_ge w e then Inl (Error (invalid_message rt w e))
             else Inr mergedConfig
         | _ \<Rightarrow> Inr mergedConfig)"

text \<open>
  The two values \<open>mergedConfig\<close> takes in a call: after the merge, and after the
  default rule.
\<close>

definition merged_config :: "runtime \<Rightarrow> string \<Rightarrow> jsval \<Rightarrow> jsval" where
  "merged_config rt baseDir todoConfig =
     Object_assign (JObj [])
       [getFromPackageJson rt baseDir,
        getFromEnvVars rt,
        if todoConfig = JUndefined then JObj [] else todoConfig]"

definition final_config :: "runtime \<Rightarrow> string \<Rightarrow> jsval \<Rightarrow> jsval" where
  "final_config rt baseDir todoConfig =
     (if length (Object_keys (merged_config rt baseDir todoConfig)) = 0
         \<and> typeof (getFromPackageJson rt baseDir) = ''undefined''
      then JObj default_config
      else merged_config rt baseDir todoConfig)"

section \<open>The resolver in a process\<close>

text \<open>
  JavaScript passes objects by reference, \<^verbatim>\<open>Object.assign\<close> and the assignments
  \<^verbatim>\<open>config.warn = warn\<close> write into an object, and \<^verbatim>\<open>require\<close> keeps every module it
  has loaded in the module cache of the process. The same resolver is therefore also
  modelled on the state of a process:
  \<^item> the heap, the list of the objects held by reference, an address being an index.
    The argument \<open>todoConfig\<close> is the address of the caller's object (or missing); an
    object literal allocates;
  \<^item> the module cache, from the path of a module to its value. \<^verbatim>\<open>require\<close> answers
    from the cache when the path is there; otherwise it loads the file (\<open>require rt\<close>),
    and keeps the value when the load succeeds.
  The value read from the manifest is held by value.
\<close>

type_synonym addr = nat

record state =
  heap :: "jsval list"
  module_cache :: "(string \<times> jsval) list"

datatype rval = Ref addr | Val jsval

fun deref :: "state \<Rightarrow> rval \<Rightarrow> jsval" where
  "deref s (Ref a) = heap s ! a"
| "deref s (Val v) = v"

definition new_object :: "jsval \<Rightarrow> state \<Rightarrow> state \<times> addr" where
  "new_object obj s = (s\<lparr>heap := heap s @ [obj]\<rparr>, length (heap s))"

definition set_prop :: "addr \<Rightarrow> string \<Rightarrow> jsval \<Rightarrow> state \<Rightarrow> state" where
  "set_prop a k v s = s\<lparr>heap := (heap s)[a := set_property (heap s ! a) k v]\<rparr>"

definition assign_from_st :: "addr \<Rightarrow> state \<Rightarrow> rval \<Rightarrow> state" where
  "assign_from_st target s src =
     foldl (\<lambda>s k. set_prop target k (get_prop (deref s src) k) s) s (own_keys (deref s src))"

definition Object_assign_st :: "addr \<Rightarrow> rval list \<Rightarrow> state \<Rightarrow> state" where
  "Object_assign_st target sources s = foldl (assign_from_st target) s sources"

definition require_st :: "runtime \<Rightarrow> string \<Rightarrow> state \<Rightarrow> state \<times> jsval option" where
  "require_st rt path s =
     (case map_of (module_cache s) path of
        Some v \<Rightarrow> (s, Some v)
      | None \<Rightarrow>
          (case require rt path of
             Some v \<Rightarrow> (s\<lparr>module_cache := (path, v) # module_cache s\<rparr>, Some v)
           | None \<Rightarrow> (s, None)))"

definition getFromPackageJson_st :: "runtime \<Rightarrow> string \<Rightarrow> state \<Rightarrow> state \<times> jsval" where
  "getFromPackageJson_st rt basePath s =
     (let (s, loaded) = require_st rt (path_join rt basePath ''package.json'') s;
          pkg = (case loaded of None \<Rightarrow> JUndefined | Some v \<Rightarrow> v)
      in (s, opt_chain (opt_chain pkg ''lintTodo'') ''daysToDecay''))"

definition getFromEnvVars_st :: "runtime \<Rightarrow> state \<Rightarrow> state \<times> addr" where
  "getFromEnvVars_st rt s =
     (let (s, config) = new_object (JObj []) s;
          warn = getEnvVar rt ''TODO_DAYS_TO_WARN'';
          error = getEnvVar rt ''TODO_DAYS_TO_ERROR'';
          s = (if Number_isInteger warn then set_prop config ''warn'' warn s else s);
          s = (if Number_isInteger error then set_prop config ''error'' error s else s)
      in (s, config))"

definition getTodoConfig_st ::
  "runtime \<Rightarrow> string \<Rightarrow> addr option \<Rightarrow> state \<Rightarrow> state \<times> (error + addr)" where
  "getTodoConfig_st rt baseDir todoConfig s =
     (let (s, todoConfig) =
            (case todoConfig of None \<Rightarrow> new_object (JObj []) s | Some a \<Rightarrow> (s, a));
          (s, daysToDecayPackageConfig) = getFromPackageJson_st rt baseDir s;
          (s, daysToDecayEnvVars) = getFromEnvVars_st rt s;
          (s, target) = new_object (JObj []) s;
          s = Object_assign_st target
                [Val daysToDecayPackageConfig, Ref daysToDecayEnvVars, Ref todoConfig] s;
          (s, mergedConfig) =
            (if length (Object_keys (heap s ! target)) = 0
                \<and> typeof daysToDecayPackageConfig = ''undefined''
             then new_object (JObj default_config) s
             else (s, target))
      in case (get_prop (heap s ! mergedConfig) ''warn'',
               get_prop (heap s ! mergedConfig) ''error'') of
           (JNum w, JNum e) \<Rightarrow>
             if num_ge w e then (s, Inl (Error (invalid_message rt w e)))
             else (s, Inr mergedConfig)
         | _ \<Rightarrow> (s, Inr mergedConfig))"

text \<open>What the caller has after a call: the error, or the record at the returned address.\<close>

definition outcome :: "state \<times> (error + addr) \<Rightarrow> error + jsval" where
  "outcome res =
     (case snd res of Inl err \<Rightarrow> Inl err | Inr a \<Rightarrow> Inr (heap (fst res) ! a))"

text \<open>What \<^verbatim>\<open>require\<close> gives a call that starts in the state \<open>s\<close>.\<close>

definition cached_require :: "runtime \<Rightarrow> state \<Rightarrow> string \<Rightarrow> jsval option" where
  "cached_require rt s path =
     (case map_of (module_cache s) path of Some v \<Rightarrow> Some v | None \<Rightarrow> require rt path)"

text \<open>
  The value of the argument \<open>todoConfig\<close> of a call that starts in the state \<open>s\<close>:
  the caller's object, or \<^verbatim>\<open>undefined\<close> when the argument is missing.
\<close>

definition todoConfig_value :: "state \<Rightarrow> addr option \<Rightarrow> jsval" where
  "todoConfig_value s todoConfig =
     (case todoConfig of None \<Rightarrow> JUndefined | Some a \<Rightarrow> heap s ! a)"

section \<open>The specification's notions\<close>

text \<open>
  The field \<open>k\<close> of a source, when the source has it; a source laid over a partial
  record, field by field; and the merge of the specification: manifest, then
  environment, then override.
\<close>

definition field :: "jsval \<Rightarrow> string \<Rightarrow> jsval option" where
  "field src k = (if k \<in> set (own_keys src) then Some (get_prop src k) else None)"

definition overwrite ::
  "(string \<Rightarrow> jsval option) \<Rightarrow> jsval \<Rightarrow> (string \<Rightarrow> jsval option)" where
  "overwrite m src = (\<lambda>k. case field src k of Some v \<Rightarrow> Some v | None \<Rightarrow> m k)"

definition spec_merge :: "jsval \<Rightarrow> jsval \<Rightarrow> jsval \<Rightarrow> (string \<Rightarrow> jsval option)" where
  "spec_merge manifest environment overrideConfig =
     overwrite (overwrite (overwrite Map.empty manifest) environment) overrideConfig"

text \<open>
  The integers among the doubles are those with at most 53 significant bits (and a
  magnitude below \<open>2 ^ 1024\<close>). \<open>nearest_even_53 a v\<close>: \<open>v\<close> is the magnitude \<open>a\<close>, of
  at least \<open>2 ^ 53\<close>, rounded to 53 significant bits, to nearest and, half way between
  two, to the even one. \<open>2 ^ k\<close> is the spacing of such integers around \<open>a\<close>.
\<close>

definition bits53 :: "int \<Rightarrow> bool" where
  "bits53 d = (\<exists>m j. \<bar>m\<bar> < 2 ^ 53 \<and> d = m * 2 ^ j)"

definition nearest_even_53 :: "int \<Rightarrow> int \<Rightarrow> bool" where
  "nearest_even_53 a v =
     (\<exists>k q. 2 ^ 52 * 2 ^ k \<le> a \<and> a < 2 ^ 53 * 2 ^ k
          \<and> 2 ^ 52 \<le> q \<and> q \<le> 2 ^ 53 \<and> v = q * 2 ^ k
          \<and> 2 * \<bar>v - a\<bar> \<le> 2 ^ k
          \<and> (2 * \<bar>v - a\<bar> = 2 ^ k \<longrightarrow> even q))"

text \<open>The invariant of the data model: two numeric fields are strictly ordered.\<close>

definition DaysToDecay_invariant :: "jsval \<Rightarrow> bool" where
  "DaysToDecay_invariant cfg =
     (case (get_prop cfg ''warn'', get_prop cfg ''error'') of
        (JNum w, JNum e) \<Rightarrow> num_lt w e
      | _ \<Rightarrow> True)"

section \<open>Worked examples\<close>

text \<open>
  A runtime for the examples: a project at \<^verbatim>\<open>/project\<close> whose manifest is given (or
  missing), the environment given as a list of variables. Numbers print in decimal,
  which is what JavaScript prints for the integers of the examples.
\<close>

definition decimal_string :: "jsnum \<Rightarrow> string" where
  "decimal_string x =
     (case x of
        NaN \<Rightarrow> ''NaN''
      | PosInf \<Rightarrow> ''Infinity''
      | NegInf \<Rightarrow> ''-Infinity''
      | Fin r \<Rightarrow> (if r < 0 then ''-'' else []) @ decimal (nat \<bar>\<lfloor>r\<rfloor>\<bar>))"

definition example_runtime :: "jsval option \<Rightarrow> (string \<times> string) list \<Rightarrow> runtime" where
  "example_runtime manifest vars =
     \<lparr> path_join = (\<lambda>dir file. dir @ ''/'' @ file),
       require = (\<lambda>p. if p = ''/project/package.json'' then manifest else None),
       process_env = map_of vars,
       number_to_string = decimal_string \<rparr>"

definition manifest_with :: "jsval \<Rightarrow> jsval option" where
  "manifest_with daysToDecay =
     Some (JObj [(''name'', JStr ''project''),
                 (''lintTodo'', JObj [(''daysToDecay'', daysToDecay)])])"

section \<open>Properties of the merge\<close>

lemma map_of_put: "map_of (put k v ps) = (map_of ps)(k \<mapsto> v)"
  by (induction ps) (auto simp: fun_eq_iff)

lemma put_not_Nil: "put k v ps \<noteq> []"
  by (cases ps) (auto split: if_splits)

lemma is_record_set_property: "is_record t \<Longrightarrow> is_record (set_property t k v)"
  by (cases t) (auto simp: set_property_def)

lemma own_props_set_property:
  "is_record t \<Longrightarrow> k \<noteq> ''__proto__'' \<Longrightarrow>
     map_of (own_props (set_property t k' v)) k =
       (if k = k' then Some v else map_of (own_props t) k)"
  by (cases t) (auto simp: set_property_def map_of_put)

lemma foldl_set_property:
  "is_record t \<Longrightarrow>
     is_record (foldl (\<lambda>t k. set_property t k (f k)) t ks)
     \<and> (k \<noteq> ''__proto__'' \<longrightarrow>
          map_of (own_props (foldl (\<lambda>t k. set_property t k (f k)) t ks)) k =
            (if k \<in> set ks then Some (f k) else map_of (own_props t) k))"
proof (induction ks arbitrary: t)
  case Nil
  then show ?case by simp
next
  case (Cons a ks)
  from Cons.prems have r: "is_record (set_property t a (f a))"
    by (rule is_record_set_property)
  from Cons.IH [OF r] Cons.prems show ?case
    by (auto simp: own_props_set_property)
qed

lemma field_record: "is_record t \<Longrightarrow> field t k = map_of (own_props t) k"
proof (cases "map_of (own_props t) k")
  case None
  assume "is_record t"
  from None have "k \<notin> fst ` set (own_props t)"
    by (simp add: map_of_eq_None_iff)
  with None \<open>is_record t\<close> show ?thesis
    by (cases t) (auto simp: field_def)
next
  case (Some v)
  assume "is_record t"
  from Some have "k \<in> fst ` set (own_props t)"
    by (metis map_of_eq_None_iff option.distinct(1))
  with Some \<open>is_record t\<close> show ?thesis
    by (cases t) (auto simp: field_def)
qed

lemma field_JObj: "field (JObj ps) k = map_of ps k"
  using field_record [of "JObj ps" k] by simp

lemma field_JUndefined: "field JUndefined k = None"
  by (simp add: field_def)

lemma assign_from_record:
  "is_record t \<Longrightarrow>
     is_record (assign_from t src)
     \<and> (k \<noteq> ''__proto__'' \<longrightarrow>
          map_of (own_props (assign_from t src)) k =
            (case field src k of Some v \<Rightarrow> Some v | None \<Rightarrow> map_of (own_props t) k))"
  using foldl_set_property [of t "get_prop src" "own_keys src" k]
  by (simp add: assign_from_def field_def)

lemma Object_assign3_record: "is_record (Object_assign (JObj []) [a, b, c])"
  by (simp add: Object_assign_def assign_from_record)

lemma Object_assign3_own:
  "k \<noteq> ''__proto__'' \<Longrightarrow>
     map_of (own_props (Object_assign (JObj []) [a, b, c])) k =
       overwrite (overwrite (overwrite Map.empty a) b) c k"
  by (simp add: Object_assign_def assign_from_record overwrite_def split: option.splits)

lemma merged_config_record: "is_record (merged_config rt baseDir todoConfig)"
  by (simp add: merged_config_def Object_assign3_record)

lemma field_merged_config:
  "k \<noteq> ''__proto__'' \<Longrightarrow>
     field (merged_config rt baseDir todoConfig) k =
       spec_merge (getFromPackageJson rt baseDir) (getFromEnvVars rt) todoConfig k"
  by (auto simp: field_record merged_config_record)
     (auto simp: merged_config_def Object_assign3_own spec_merge_def overwrite_def
        field_JUndefined field_JObj)

lemma Object_keys_record: "is_record t \<Longrightarrow> set (Object_keys t) = dom (map_of (own_props t))"
  by (cases t) (auto simp: Object_keys_def dom_map_of_conv_image_fst)

lemma Object_keys_Nil: "is_record t \<Longrightarrow> Object_keys t = [] \<longleftrightarrow> own_props t = []"
  by (cases t; cases "own_props t") (auto simp: Object_keys_def)

lemma typeof_undefined: "typeof v = ''undefined'' \<longleftrightarrow> v = JUndefined"
  by (cases v) auto


lemma final_config_cases:
  "final_config rt baseDir todoConfig =
     (if own_props (merged_config rt baseDir todoConfig) = []
         \<and> getFromPackageJson rt baseDir = JUndefined
      then JObj default_config else merged_config rt baseDir todoConfig)"
  by (simp add: final_config_def Object_keys_Nil merged_config_record typeof_undefined)

lemma getTodoConfig_cases:
  "getTodoConfig rt baseDir todoConfig =
     (case (get_prop (final_config rt baseDir todoConfig) ''warn'',
            get_prop (final_config rt baseDir todoConfig) ''error'') of
        (JNum w, JNum e) \<Rightarrow>
          if num_ge w e then Inl (Error (invalid_message rt w e))
          else Inr (final_config rt baseDir todoConfig)
      | _ \<Rightarrow> Inr (final_config rt baseDir todoConfig))"
  unfolding getTodoConfig_def final_config_def merged_config_def Let_def by (rule refl)

lemma getTodoConfig_default:
  "final_config rt baseDir todoConfig = JObj default_config \<Longrightarrow>
     getTodoConfig rt baseDir todoConfig = Inr (JObj default_config)"
  by (simp add: getTodoConfig_cases default_config_def)

lemma getTodoConfig_Inr:
  "getTodoConfig rt baseDir todoConfig = Inr v \<Longrightarrow> v = final_config rt baseDir todoConfig"
  by (auto simp: getTodoConfig_cases split: jsval.splits if_splits)

lemma getTodoConfig_Inl_iff:
  "(\<exists>err. getTodoConfig rt baseDir todoConfig = Inl err) \<longleftrightarrow>
     (\<exists>w e. get_prop (final_config rt baseDir todoConfig) ''warn'' = JNum w
          \<and> get_prop (final_config rt baseDir todoConfig) ''error'' = JNum e
          \<and> num_ge w e)"
  by (auto simp: getTodoConfig_cases split: jsval.splits if_splits)

lemma getTodoConfig_raise:
  "get_prop (final_config rt baseDir todoConfig) ''warn'' = JNum w \<Longrightarrow>
   get_prop (final_config rt baseDir todoConfig) ''error'' = JNum e \<Longrightarrow>
   num_ge w e \<Longrightarrow>
   getTodoConfig rt baseDir todoConfig = Inl (Error (invalid_message rt w e))"
  by (simp add: getTodoConfig_cases)

lemma getTodoConfig_return:
  "\<not> (\<exists>w e. get_prop (final_config rt baseDir todoConfig) ''warn'' = JNum w
          \<and> get_prop (final_config rt baseDir todoConfig) ''error'' = JNum e
          \<and> num_ge w e) \<Longrightarrow>
   getTodoConfig rt baseDir todoConfig = Inr (final_config rt baseDir todoConfig)"
  by (auto simp: getTodoConfig_cases split: jsval.splits if_splits)

lemma num_lt_iff: "x \<noteq> NaN \<Longrightarrow> y \<noteq> NaN \<Longrightarrow> num_lt x y \<longleftrightarrow> \<not> num_ge x y"
  by (cases x; cases y) auto

subsection \<open>The environment's record has the keys warn and error only\<close>

lemma getFromEnvVars_props:
  "getFromEnvVars rt =
     JObj ((if Number_isInteger (getEnvVar rt ''TODO_DAYS_TO_WARN'')
            then [(''warn'', getEnvVar rt ''TODO_DAYS_TO_WARN'')] else [])
         @ (if Number_isInteger (getEnvVar rt ''TODO_DAYS_TO_ERROR'')
            then [(''error'', getEnvVar rt ''TODO_DAYS_TO_ERROR'')] else []))"
  by (simp add: getFromEnvVars_def Let_def)

lemma getFromEnvVars_JObj: "\<exists>E. getFromEnvVars rt = JObj E"
  by (simp add: getFromEnvVars_props)

lemma getFromEnvVars_no_proto: "''__proto__'' \<notin> set (own_keys (getFromEnvVars rt))"
  by (auto simp: getFromEnvVars_props)

lemma field_env_warn:
  "field (getFromEnvVars rt) ''warn'' =
     (if Number_isInteger (getEnvVar rt ''TODO_DAYS_TO_WARN'')
      then Some (getEnvVar rt ''TODO_DAYS_TO_WARN'') else None)"
  by (simp add: getFromEnvVars_props field_JObj)

lemma field_env_error:
  "field (getFromEnvVars rt) ''error'' =
     (if Number_isInteger (getEnvVar rt ''TODO_DAYS_TO_ERROR'')
      then Some (getEnvVar rt ''TODO_DAYS_TO_ERROR'') else None)"
  by (simp add: getFromEnvVars_props field_JObj)

subsection \<open>Sources without an own key \<open>__proto__\<close>\<close>





subsection \<open>When the default applies\<close>

lemma decimal_0: "decimal 0 = ''0''"
  by (subst decimal.simps) simp

lemma own_keys_only_proto:
  assumes "set (own_keys v) \<subseteq> {''__proto__''}"
  shows "own_keys v = [] \<or> own_keys v = [''__proto__'']"
proof -
  have d: "ks = [] \<or> ks = [a]" if "distinct ks" "set ks \<subseteq> {a}" for ks :: "string list" and a
  proof (cases ks)
    case Nil
    then show ?thesis by simp
  next
    case (Cons x xs)
    with that have "x = a" "set xs \<subseteq> {a}" "a \<notin> set xs"
      by auto
    then have "xs = []"
      by (cases xs) auto
    with Cons \<open>x = a\<close> show ?thesis by simp
  qed
  have "distinct (own_keys v)"
  proof (cases v)
    case (JArr xs)
    have "xs = []"
    proof (rule ccontr)
      assume "xs \<noteq> []"
      then have "0 \<in> set [0..<length xs]"
        by simp
      then have "decimal 0 \<in> decimal ` set [0..<length xs]"
        by (rule imageI)
      with JArr have "decimal 0 \<in> set (own_keys v)"
        by simp
      with assms show False
        by (auto simp: decimal_0)
    qed
    with JArr show ?thesis by simp
  next
    case (JStr xs)
    have "xs = []"
    proof (rule ccontr)
      assume "xs \<noteq> []"
      then have "0 \<in> set [0..<length xs]"
        by simp
      then have "decimal 0 \<in> decimal ` set [0..<length xs]"
        by (rule imageI)
      with JStr have "decimal 0 \<in> set (own_keys v)"
        by simp
      with assms show False
        by (auto simp: decimal_0)
    qed
    with JStr show ?thesis by simp
  qed auto
  with assms d [of "own_keys v"] show ?thesis
    by auto
qed

lemma assign_from_only_proto:
  assumes "set (own_keys src) \<subseteq> {''__proto__''}"
  shows "own_props (assign_from (JObj []) src) = []"
  using own_keys_only_proto [OF assms]
  by (auto simp: assign_from_def set_property_def reaches_setter_def)

lemma default_condition:
  "own_props (merged_config rt baseDir todoConfig) = []
     \<and> getFromPackageJson rt baseDir = JUndefined \<longleftrightarrow>
   getFromPackageJson rt baseDir = JUndefined \<and> own_keys (getFromEnvVars rt) = []
     \<and> set (own_keys todoConfig) \<subseteq> {''__proto__''}"
proof (cases "getFromPackageJson rt baseDir = JUndefined")
  case False
  then show ?thesis by simp
next
  case True
  let ?c = "if todoConfig = JUndefined then JObj [] else todoConfig"
  have keys: "set (own_keys ?c) = set (own_keys todoConfig)"
    by simp
  show ?thesis
  proof
    assume l: "own_props (merged_config rt baseDir todoConfig) = []
                 \<and> getFromPackageJson rt baseDir = JUndefined"
    have none: "spec_merge JUndefined (getFromEnvVars rt) todoConfig k = None"
      if "k \<noteq> ''__proto__''" for k
      using field_merged_config [OF that, of rt baseDir todoConfig] l True
      by (simp add: field_record merged_config_record)
    have "k \<notin> set (own_keys (getFromEnvVars rt))" for k
    proof (cases "k = ''__proto__''")
      case True
      then show ?thesis
        by (simp add: getFromEnvVars_no_proto)
    next
      case False
      from none [OF this] show ?thesis
        by (auto simp: spec_merge_def overwrite_def field_def split: option.splits if_splits)
    qed
    then have "own_keys (getFromEnvVars rt) = []"
      by (cases "own_keys (getFromEnvVars rt)") auto
    moreover have "set (own_keys todoConfig) \<subseteq> {''__proto__''}"
    proof
      fix k
      assume k: "k \<in> set (own_keys todoConfig)"
      show "k \<in> {''__proto__''}"
      proof (rule ccontr)
        assume "k \<notin> {''__proto__''}"
        then have "k \<noteq> ''__proto__''"
          by simp
        from none [OF this] k show False
          by (auto simp: spec_merge_def overwrite_def field_def split: option.splits if_splits)
      qed
    qed
    ultimately show "getFromPackageJson rt baseDir = JUndefined
        \<and> own_keys (getFromEnvVars rt) = [] \<and> set (own_keys todoConfig) \<subseteq> {''__proto__''}"
      using True by simp
  next
    assume r: "getFromPackageJson rt baseDir = JUndefined \<and> own_keys (getFromEnvVars rt) = []
        \<and> set (own_keys todoConfig) \<subseteq> {''__proto__''}"
    then have "set (own_keys ?c) \<subseteq> {''__proto__''}"
      using keys by simp
    then have "own_props (assign_from (JObj []) ?c) = []"
      by (rule assign_from_only_proto)
    with r True show "own_props (merged_config rt baseDir todoConfig) = []
                 \<and> getFromPackageJson rt baseDir = JUndefined"
      by (simp add: merged_config_def Object_assign_def assign_from_def)
  qed
qed

lemmas parse_defs =
  parseInt10_def is_white_space_def is_digit_def math_int_def to_float64_def

lemmas example_defs = example_runtime_def manifest_with_def

lemma example_no_manifest:
  "getFromPackageJson (example_runtime None vars) ''/project'' = JUndefined"
  by (simp add: getFromPackageJson_def opt_chain_def example_defs)

lemma example_manifest:
  "getFromPackageJson (example_runtime (manifest_with v) vars) ''/project'' = v"
  by (simp add: getFromPackageJson_def opt_chain_def example_defs)

lemma example_no_env: "getFromEnvVars (example_runtime m []) = JObj []"
  by (simp add: getFromEnvVars_def getEnvVar_def example_defs)

lemma example_env: "process_env (example_runtime m vars) = map_of vars"
  by (simp add: example_runtime_def)

lemma example_number_to_string:
  "number_to_string (example_runtime m vars) = decimal_string"
  by (simp add: example_runtime_def)

lemmas merge_eval =
  getTodoConfig_cases final_config_def merged_config_def Object_assign_def assign_from_def
  set_property_def reaches_setter_def Object_keys_def

section \<open>Precedence of the three sources\<close>





section \<open>The default\<close>

text \<open>
  Claim C2. The resolver returns the default \<open>{warn: 30, error: 60}\<close> in place of the
  merged record exactly when the merged record has no own key and the manifest source
  is absent; that is, when the manifest source is absent, the environment gives
  nothing and the override has no key (but, at most, \<^verbatim>\<open>__proto__\<close>). In every other
  case the resolver goes on with the merged record: it returns it, or raises for its
  \<open>warn\<close> and \<open>error\<close>. A manifest source that is present but empty, with nothing
  from the environment or the override, keeps the default away: the resolver returns
  the empty record.
\<close>

theorem default_rule:
  "((length (Object_keys (merged_config rt baseDir todoConfig)) = 0
       \<and> getFromPackageJson rt baseDir = JUndefined) \<longleftrightarrow>
     (getFromPackageJson rt baseDir = JUndefined \<and> own_keys (getFromEnvVars rt) = []
       \<and> set (own_keys todoConfig) \<subseteq> {''__proto__''}))
   \<and> (length (Object_keys (merged_config rt baseDir todoConfig)) = 0
        \<and> getFromPackageJson rt baseDir = JUndefined
      \<longrightarrow> getTodoConfig rt baseDir todoConfig = Inr (JObj default_config))
   \<and> (\<not> (length (Object_keys (merged_config rt baseDir todoConfig)) = 0
           \<and> getFromPackageJson rt baseDir = JUndefined)
      \<longrightarrow> getTodoConfig rt baseDir todoConfig = Inr (merged_config rt baseDir todoConfig)
          \<or> (\<exists>w e. get_prop (merged_config rt baseDir todoConfig) ''warn'' = JNum w
                \<and> get_prop (merged_config rt baseDir todoConfig) ''error'' = JNum e
                \<and> num_ge w e
                \<and> getTodoConfig rt baseDir todoConfig = Inl (Error (invalid_message rt w e))))
   \<and> (getFromPackageJson rt baseDir = JObj [] \<and> getFromEnvVars rt = JObj []
        \<and> (todoConfig = JUndefined \<or> todoConfig = JObj [])
      \<longrightarrow> getTodoConfig rt baseDir todoConfig = Inr (JObj []))
   \<and> (getFromPackageJson rt baseDir = JUndefined \<and> getFromEnvVars rt = JObj []
        \<and> (todoConfig = JUndefined \<or> todoConfig = JObj [])
      \<longrightarrow> getTodoConfig rt baseDir todoConfig = Inr (JObj default_config))"
proof (intro conjI impI)
  let ?M = "merged_config rt baseDir todoConfig"
  have k: "length (Object_keys ?M) = 0 \<longleftrightarrow> own_props ?M = []"
    by (simp add: Object_keys_Nil merged_config_record)
  show "(length (Object_keys ?M) = 0 \<and> getFromPackageJson rt baseDir = JUndefined) \<longleftrightarrow>
     (getFromPackageJson rt baseDir = JUndefined \<and> own_keys (getFromEnvVars rt) = []
       \<and> set (own_keys todoConfig) \<subseteq> {''__proto__''})"
    unfolding k by (rule default_condition)
  {
    assume "length (Object_keys ?M) = 0 \<and> getFromPackageJson rt baseDir = JUndefined"
    then have "final_config rt baseDir todoConfig = JObj default_config"
      by (simp add: final_config_def)
    then show "getTodoConfig rt baseDir todoConfig = Inr (JObj default_config)"
      by (rule getTodoConfig_default)
  }
  {
    assume "\<not> (length (Object_keys ?M) = 0 \<and> getFromPackageJson rt baseDir = JUndefined)"
    then have F: "final_config rt baseDir todoConfig = ?M"
      by (auto simp: final_config_def typeof_undefined)
    show "getTodoConfig rt baseDir todoConfig = Inr ?M
          \<or> (\<exists>w e. get_prop ?M ''warn'' = JNum w \<and> get_prop ?M ''error'' = JNum e
                \<and> num_ge w e
                \<and> getTodoConfig rt baseDir todoConfig = Inl (Error (invalid_message rt w e)))"
    proof (cases "\<exists>w e. get_prop ?M ''warn'' = JNum w \<and> get_prop ?M ''error'' = JNum e
                \<and> num_ge w e")
      case True
      then obtain w e where "get_prop ?M ''warn'' = JNum w" "get_prop ?M ''error'' = JNum e"
        "num_ge w e"
        by blast
      moreover from this have "getTodoConfig rt baseDir todoConfig =
          Inl (Error (invalid_message rt w e))"
        by (intro getTodoConfig_raise) (simp_all add: F)
      ultimately show ?thesis
        by blast
    next
      case False
      then have "getTodoConfig rt baseDir todoConfig = Inr ?M"
        using getTodoConfig_return [of rt baseDir todoConfig] by (simp add: F)
      then show ?thesis
        by simp
    qed
  }
  {
    assume "getFromPackageJson rt baseDir = JObj [] \<and> getFromEnvVars rt = JObj []
            \<and> (todoConfig = JUndefined \<or> todoConfig = JObj [])"
    then show "getTodoConfig rt baseDir todoConfig = Inr (JObj [])"
      by (auto simp: merge_eval)
  }
  {
    assume "getFromPackageJson rt baseDir = JUndefined \<and> getFromEnvVars rt = JObj []
            \<and> (todoConfig = JUndefined \<or> todoConfig = JObj [])"
    then show "getTodoConfig rt baseDir todoConfig = Inr (JObj default_config)"
      by (auto simp: merge_eval default_config_def)
  }
qed

theorem default_rule_witness:
  "getTodoConfig (example_runtime None []) ''/project'' JUndefined
     = Inr (JObj [(''warn'', JNum (Fin 30)), (''error'', JNum (Fin 60))])
   \<and> getTodoConfig (example_runtime (manifest_with (JObj [])) []) ''/project'' JUndefined
     = Inr (JObj [])
   \<and> getTodoConfig (example_runtime None []) ''/project'' (JObj [(''warn'', JNum (Fin 3))])
     = Inr (JObj [(''warn'', JNum (Fin 3))])
   \<and> getTodoConfig (example_runtime None []) ''/project''
       (JObj [(''__proto__'', JObj [(''warn'', JNum (Fin 9)), (''error'', JNum (Fin 1))])])
     = Inr (JObj [(''warn'', JNum (Fin 30)), (''error'', JNum (Fin 60))])"
proof -
  let ?rt = "example_runtime None []"
  have a: "getTodoConfig ?rt ''/project'' JUndefined = Inr (JObj default_config)"
    using default_rule [of ?rt "''/project''" JUndefined]
    by (simp add: example_no_manifest example_no_env)
  have b: "getTodoConfig (example_runtime (manifest_with (JObj [])) []) ''/project'' JUndefined
             = Inr (JObj [])"
    using default_rule [of "example_runtime (manifest_with (JObj [])) []" "''/project''" JUndefined]
    by (simp add: example_manifest example_no_env)
  let ?c = "JObj [(''warn'', JNum (Fin 3))]"
  have m: "merged_config ?rt ''/project'' ?c = ?c"
    by (simp add: merged_config_def example_no_manifest example_no_env Object_assign_def
        assign_from_def set_property_def)
  have c: "getTodoConfig ?rt ''/project'' ?c = Inr ?c"
    using default_rule [of ?rt "''/project''" ?c]
    by (simp add: m Object_keys_def)
  let ?p = "JObj [(''__proto__'', JObj [(''warn'', JNum (Fin 9)), (''error'', JNum (Fin 1))])]"
  have d: "getTodoConfig ?rt ''/project'' ?p = Inr (JObj default_config)"
    using default_rule [of ?rt "''/project''" ?p]
    by (simp add: example_no_manifest example_no_env)
  from a b c d show ?thesis
    by (simp add: default_config_def)
qed

section \<open>The only error\<close>

text \<open>
  Claim C3. The resolver raises exactly when, in the merged and defaulted record,
  \<open>warn\<close> and \<open>error\<close> are both numbers and \<open>warn >= error\<close>; the message of the
  error contains both values. In every other case it returns the record: a manifest
  that cannot be read or parsed counts as absent, and an environment variable that does
  not parse leaves its field out.
\<close>

theorem ordering_error:
  "((\<exists>err. getTodoConfig rt baseDir todoConfig = Inl err) \<longleftrightarrow>
      (\<exists>w e. get_prop (final_config rt baseDir todoConfig) ''warn'' = JNum w
           \<and> get_prop (final_config rt baseDir todoConfig) ''error'' = JNum e
           \<and> num_ge w e))
   \<and> (\<forall>w e. get_prop (final_config rt baseDir todoConfig) ''warn'' = JNum w
           \<and> get_prop (final_config rt baseDir todoConfig) ''error'' = JNum e
           \<and> num_ge w e
        \<longrightarrow> (\<exists>pre mid post. getTodoConfig rt baseDir todoConfig =
              Inl (Error (pre @ number_to_string rt w @ mid @ number_to_string rt e @ post))))
   \<and> ((\<nexists>err. getTodoConfig rt baseDir todoConfig = Inl err)
        \<longrightarrow> getTodoConfig rt baseDir todoConfig = Inr (final_config rt baseDir todoConfig))
   \<and> (require rt (path_join rt baseDir ''package.json'') = None
        \<longrightarrow> getFromPackageJson rt baseDir = JUndefined)
   \<and> (\<forall>s. process_env rt ''TODO_DAYS_TO_WARN'' = Some s \<and> parseInt10 s = NaN
        \<longrightarrow> field (getFromEnvVars rt) ''warn'' = None)
   \<and> (\<forall>s. process_env rt ''TODO_DAYS_TO_ERROR'' = Some s \<and> parseInt10 s = NaN
        \<longrightarrow> field (getFromEnvVars rt) ''error'' = None)"
proof (intro conjI allI impI)
  show "(\<exists>err. getTodoConfig rt baseDir todoConfig = Inl err) \<longleftrightarrow>
      (\<exists>w e. get_prop (final_config rt baseDir todoConfig) ''warn'' = JNum w
           \<and> get_prop (final_config rt baseDir todoConfig) ''error'' = JNum e
           \<and> num_ge w e)"
    by (rule getTodoConfig_Inl_iff)
next
  fix w e
  assume "get_prop (final_config rt baseDir todoConfig) ''warn'' = JNum w
           \<and> get_prop (final_config rt baseDir todoConfig) ''error'' = JNum e
           \<and> num_ge w e"
  then have "getTodoConfig rt baseDir todoConfig = Inl (Error (invalid_message rt w e))"
    by (simp add: getTodoConfig_raise)
  then show "\<exists>pre mid post. getTodoConfig rt baseDir todoConfig =
              Inl (Error (pre @ number_to_string rt w @ mid @ number_to_string rt e @ post))"
    unfolding invalid_message_def by blast
next
  assume "\<nexists>err. getTodoConfig rt baseDir todoConfig = Inl err"
  then obtain v where "getTodoConfig rt baseDir todoConfig = Inr v"
    by (cases "getTodoConfig rt baseDir todoConfig") auto
  then show "getTodoConfig rt baseDir todoConfig = Inr (final_config rt baseDir todoConfig)"
    using getTodoConfig_Inr by blast
next
  assume "require rt (path_join rt baseDir ''package.json'') = None"
  then show "getFromPackageJson rt baseDir = JUndefined"
    by (simp add: getFromPackageJson_def opt_chain_def)
next
  fix s
  assume "process_env rt ''TODO_DAYS_TO_WARN'' = Some s \<and> parseInt10 s = NaN"
  then show "field (getFromEnvVars rt) ''warn'' = None"
    by (simp add: field_env_warn getEnvVar_def)
next
  fix s
  assume "process_env rt ''TODO_DAYS_TO_ERROR'' = Some s \<and> parseInt10 s = NaN"
  then show "field (getFromEnvVars rt) ''error'' = None"
    by (simp add: field_env_error getEnvVar_def)
qed

theorem ordering_error_witness:
  "(\<exists>pre mid post.
      getTodoConfig (example_runtime None []) ''/project''
        (JObj [(''warn'', JNum (Fin 10)), (''error'', JNum (Fin 5))])
      = Inl (Error (pre @ ''10'' @ mid @ ''5'' @ post)))
   \<and> (\<exists>err.
      getTodoConfig
        (example_runtime
           (manifest_with
              (JObj [(''__proto__'', JObj [(''warn'', JNum (Fin 100)), (''error'', JNum (Fin 1))])]))
           [])
        ''/project'' JUndefined = Inl err)
   \<and> getFromPackageJson (example_runtime None []) ''/project'' = JUndefined
   \<and> field (getFromEnvVars (example_runtime None [(''TODO_DAYS_TO_WARN'', ''abc'')])) ''warn''
       = None"
proof -
  let ?rt = "example_runtime None []"
  let ?cfg = "JObj [(''warn'', JNum (Fin 10)), (''error'', JNum (Fin 5))]"
  have f: "final_config ?rt ''/project'' ?cfg = ?cfg"
    by (simp add: final_config_def merged_config_def example_no_manifest example_no_env
        Object_assign_def assign_from_def set_property_def Object_keys_def)
  have "\<exists>pre mid post. getTodoConfig ?rt ''/project'' ?cfg =
          Inl (Error (pre @ number_to_string ?rt (Fin 10) @ mid @ number_to_string ?rt (Fin 5) @ post))"
    using ordering_error [of ?rt "''/project''" ?cfg] by (simp add: f)
  moreover have "number_to_string ?rt (Fin 10) = ''10''" "number_to_string ?rt (Fin 5) = ''5''"
    by (simp_all add: example_number_to_string decimal_string_def decimal.simps)
  ultimately have a: "\<exists>pre mid post. getTodoConfig ?rt ''/project'' ?cfg =
          Inl (Error (pre @ ''10'' @ mid @ ''5'' @ post))"
    by simp
  let ?rp = "example_runtime
           (manifest_with
              (JObj [(''__proto__'', JObj [(''warn'', JNum (Fin 100)), (''error'', JNum (Fin 1))])]))
           []"
  have fp: "final_config ?rp ''/project'' JUndefined =
      JProto (JObj [(''warn'', JNum (Fin 100)), (''error'', JNum (Fin 1))]) []"
    by (simp add: final_config_def merged_config_def example_manifest example_no_env
        Object_assign_def assign_from_def set_property_def reaches_setter_def Object_keys_def)
  have p: "\<exists>err. getTodoConfig ?rp ''/project'' JUndefined = Inl err"
    using ordering_error [of ?rp "''/project''" JUndefined] by (simp add: fp)
  have b: "getFromPackageJson ?rt ''/project'' = JUndefined"
    using ordering_error [of ?rt "''/project''" JUndefined]
    by (simp add: example_runtime_def)
  have c: "field (getFromEnvVars (example_runtime None [(''TODO_DAYS_TO_WARN'', ''abc'')])) ''warn'' = None"
    using ordering_error [of "example_runtime None [(''TODO_DAYS_TO_WARN'', ''abc'')]" "''/project''" JUndefined]
    by (simp add: example_env parse_defs)
  from a p b c show ?thesis
    by blast
qed

section \<open>The ordering of a returned record\<close>

text \<open>
  Claim C5 as stated fails. The invariant of the data model can fail on a returned record:
  \<open>NaN\<close> is a number, no comparison with it holds, and the override
  \<open>{warn: NaN, error: 5}\<close> is returned as it is.
\<close>

theorem invariant_counterexample:
  "getTodoConfig (example_runtime None []) ''/project''
     (JObj [(''warn'', JNum NaN), (''error'', JNum (Fin 5))])
     = Inr (JObj [(''warn'', JNum NaN), (''error'', JNum (Fin 5))])
   \<and> \<not> DaysToDecay_invariant (JObj [(''warn'', JNum NaN), (''error'', JNum (Fin 5))])"
  by (simp add: merge_eval example_no_manifest example_no_env DaysToDecay_invariant_def)

text \<open>
  Claim C5, as the code has it. In a record the resolver returns, if \<open>warn\<close> and
  \<open>error\<close> are both numbers, then \<open>warn >= error\<close> does not hold; when neither is
  \<open>NaN\<close>, this is \<open>warn < error\<close>, the invariant of the data model.
\<close>

theorem ordering_invariant:
  "getTodoConfig rt baseDir todoConfig = Inr cfg \<Longrightarrow>
   get_prop cfg ''warn'' = JNum w \<Longrightarrow>
   get_prop cfg ''error'' = JNum e \<Longrightarrow>
   \<not> num_ge w e \<and> (w \<noteq> NaN \<and> e \<noteq> NaN \<longrightarrow> num_lt w e \<and> DaysToDecay_invariant cfg)"
proof -
  assume r: "getTodoConfig rt baseDir todoConfig = Inr cfg"
    and w: "get_prop cfg ''warn'' = JNum w" and e: "get_prop cfg ''error'' = JNum e"
  from r have cfg: "cfg = final_config rt baseDir todoConfig"
    by (rule getTodoConfig_Inr)
  have "\<not> num_ge w e"
  proof
    assume "num_ge w e"
    with w e cfg have "getTodoConfig rt baseDir todoConfig = Inl (Error (invalid_message rt w e))"
      by (simp add: getTodoConfig_raise)
    with r show False by simp
  qed
  then show ?thesis
    using w e by (auto simp: num_lt_iff DaysToDecay_invariant_def)
qed

theorem ordering_invariant_witness:
  "getTodoConfig
     (example_runtime (manifest_with (JObj [(''warn'', JNum (Fin 5)), (''error'', JNum (Fin 10))])) [])
     ''/project'' JUndefined
     = Inr (JObj [(''warn'', JNum (Fin 5)), (''error'', JNum (Fin 10))])
   \<and> \<not> num_ge (Fin 5) (Fin 10) \<and> num_lt (Fin 5) (Fin 10)
   \<and> DaysToDecay_invariant (JObj [(''warn'', JNum (Fin 5)), (''error'', JNum (Fin 10))])"
proof -
  let ?rt = "example_runtime (manifest_with (JObj [(''warn'', JNum (Fin 5)), (''error'', JNum (Fin 10))])) []"
  let ?cfg = "JObj [(''warn'', JNum (Fin 5)), (''error'', JNum (Fin 10))]"
  have r: "getTodoConfig ?rt ''/project'' JUndefined = Inr ?cfg"
    by (simp add: merge_eval example_manifest example_no_env)
  have w: "get_prop ?cfg ''warn'' = JNum (Fin 5)" and e: "get_prop ?cfg ''error'' = JNum (Fin 10)"
    by simp_all
  from ordering_invariant [OF r w e] r show ?thesis
    by simp
qed

section \<open>Absent fields and undefined fields\<close>




section \<open>The returned value\<close>

text \<open>
  Claim C8. Whenever the resolver does not raise, it returns an object, never
  \<^verbatim>\<open>undefined\<close>, although its declared type allows that.
\<close>

theorem returns_object:
  "(\<nexists>err. getTodoConfig rt baseDir todoConfig = Inl err) \<Longrightarrow>
     \<exists>v. getTodoConfig rt baseDir todoConfig = Inr v \<and> v \<noteq> JUndefined
       \<and> ((\<exists>ps. v = JObj ps) \<or> (\<exists>p ps. v = JProto p ps))"
proof -
  assume "\<nexists>err. getTodoConfig rt baseDir todoConfig = Inl err"
  then obtain v where v: "getTodoConfig rt baseDir todoConfig = Inr v"
    by (cases "getTodoConfig rt baseDir todoConfig") auto
  then have "v = final_config rt baseDir todoConfig"
    by (rule getTodoConfig_Inr)
  then have "is_record v"
    by (simp add: final_config_cases merged_config_record)
  then have "v \<noteq> JUndefined \<and> ((\<exists>ps. v = JObj ps) \<or> (\<exists>p ps. v = JProto p ps))"
    by (cases v) auto
  with v show ?thesis
    by blast
qed

theorem returns_object_witness:
  "(\<nexists>err. getTodoConfig (example_runtime None []) ''/project'' (JObj [(''warn'', JNum (Fin 3))])
       = Inl err)
   \<and> (\<exists>v. getTodoConfig (example_runtime None []) ''/project'' (JObj [(''warn'', JNum (Fin 3))])
         = Inr v \<and> v \<noteq> JUndefined \<and> ((\<exists>ps. v = JObj ps) \<or> (\<exists>p ps. v = JProto p ps)))"
proof -
  have "getTodoConfig (example_runtime None []) ''/project'' (JObj [(''warn'', JNum (Fin 3))])
          = Inr (JObj [(''warn'', JNum (Fin 3))])"
    by (simp add: merge_eval example_no_manifest example_no_env)
  then have h: "\<nexists>err. getTodoConfig (example_runtime None []) ''/project''
                   (JObj [(''warn'', JNum (Fin 3))]) = Inl err"
    by simp
  from returns_object [OF h] h show ?thesis
    by blast
qed

text \<open>
  Claim C10. When the default is applied (the merged record has no key and the
  manifest source is \<^verbatim>\<open>undefined\<close>), the validation passes: the call returns the
  default and raises no error.
\<close>

theorem default_never_raises:
  "length (Object_keys (merged_config rt baseDir todoConfig)) = 0 \<Longrightarrow>
   typeof (getFromPackageJson rt baseDir) = ''undefined'' \<Longrightarrow>
   final_config rt baseDir todoConfig = JObj default_config
   \<and> getTodoConfig rt baseDir todoConfig = Inr (JObj default_config)
   \<and> (\<nexists>err. getTodoConfig rt baseDir todoConfig = Inl err)"
proof -
  assume "length (Object_keys (merged_config rt baseDir todoConfig)) = 0"
    and "typeof (getFromPackageJson rt baseDir) = ''undefined''"
  then have d: "final_config rt baseDir todoConfig = JObj default_config"
    by (simp add: final_config_def)
  then have "getTodoConfig rt baseDir todoConfig = Inr (JObj default_config)"
    by (rule getTodoConfig_default)
  with d show ?thesis
    by simp
qed

theorem default_never_raises_witness:
  "length (Object_keys (merged_config (example_runtime None []) ''/project'' JUndefined)) = 0
   \<and> typeof (getFromPackageJson (example_runtime None []) ''/project'') = ''undefined''
   \<and> getTodoConfig (example_runtime None []) ''/project'' JUndefined
       = Inr (JObj [(''warn'', JNum (Fin 30)), (''error'', JNum (Fin 60))])"
proof -
  have k: "length (Object_keys (merged_config (example_runtime None []) ''/project'' JUndefined)) = 0"
    by (simp add: merged_config_def example_no_manifest example_no_env Object_assign_def
        assign_from_def Object_keys_def)
  have u: "typeof (getFromPackageJson (example_runtime None []) ''/project'') = ''undefined''"
    by (simp add: example_no_manifest)
  from default_never_raises [OF k u] k u show ?thesis
    by (simp add: default_config_def)
qed

section \<open>Parsing an environment variable\<close>

lemma to_float64_cases:
  "to_float64 n = NegInf \<or> to_float64 n = PosInf \<or> (\<exists>m. to_float64 n = Fin (of_int m))"
  unfolding to_float64_def Let_def by (simp only: split: if_split) blast

lemma to_float64_integer: "to_float64 n = Fin r \<Longrightarrow> of_int \<lfloor>r\<rfloor> = r"
  using to_float64_cases [of n] by auto

lemma parseInt10_cases:
  "parseInt10 s = NaN \<or> (\<exists>n. parseInt10 s = to_float64 n)"
  unfolding parseInt10_def Let_def by (simp only: split: if_split) blast

lemma parseInt10_integer: "parseInt10 s = Fin r \<Longrightarrow> of_int \<lfloor>r\<rfloor> = r"
  using parseInt10_cases [of s] to_float64_integer by auto

lemma parseInt10_Nil: "parseInt10 [] = NaN"
  by (simp add: parseInt10_def)

lemma Number_isInteger_getEnvVar:
  "(if Number_isInteger (getEnvVar rt name) then Some (getEnvVar rt name) else None) =
     (case process_env rt name of
        None \<Rightarrow> None
      | Some s \<Rightarrow> (case parseInt10 s of Fin r \<Rightarrow> Some (JNum (Fin r)) | _ \<Rightarrow> None))"
  by (auto simp: getEnvVar_def parseInt10_Nil parseInt10_integer split: option.splits jsnum.splits)

lemma digit_not_white_space: "is_digit c \<Longrightarrow> \<not> is_white_space c"
  by (auto simp: is_digit_def is_white_space_def)

lemma sign_chars:
  "\<not> is_white_space CHR ''+''" "\<not> is_white_space CHR ''-''"
  "\<not> is_digit CHR ''+''" "\<not> is_digit CHR ''-''"
  by (simp_all add: is_digit_def is_white_space_def)

lemma takeWhile_digits:
  "list_all is_digit ds \<Longrightarrow> rest = [] \<or> \<not> is_digit (hd rest) \<Longrightarrow>
     takeWhile is_digit (ds @ rest) = ds"
  by (cases rest) (auto simp: list_all_iff)

lemma dropWhile_white_space:
  "list_all is_white_space ws \<Longrightarrow> t = [] \<or> \<not> is_white_space (hd t) \<Longrightarrow>
     dropWhile is_white_space (ws @ t) = t"
  by (cases t) (auto simp: list_all_iff dropWhile_append)

lemma parseInt10_digits:
  assumes "list_all is_white_space ws" and "sg = [] \<or> sg = ''+'' \<or> sg = ''-''"
    and "ds \<noteq> []" and "list_all is_digit ds" and "rest = [] \<or> \<not> is_digit (hd rest)"
  shows "parseInt10 (ws @ sg @ ds @ rest) =
           to_float64 ((if sg = ''-'' then - 1 else 1) * math_int ds)"
proof -
  from \<open>ds \<noteq> []\<close> \<open>list_all is_digit ds\<close> have d: "is_digit (hd ds)"
    by (cases ds) auto
  then have hd: "hd ds \<noteq> CHR ''+''" "hd ds \<noteq> CHR ''-''"
    using sign_chars by auto
  have t: "sg @ ds @ rest = [] \<or> \<not> is_white_space (hd (sg @ ds @ rest))"
    using assms(2) \<open>ds \<noteq> []\<close> d by (auto simp: sign_chars digit_not_white_space)
  have S: "dropWhile is_white_space (ws @ sg @ ds @ rest) = sg @ ds @ rest"
    using dropWhile_white_space [OF assms(1) t] .
  have Z: "takeWhile is_digit (ds @ rest) = ds"
    using assms(4,5) by (rule takeWhile_digits)
  from assms(2) show ?thesis
  proof (elim disjE)
    assume "sg = []"
    with S Z \<open>ds \<noteq> []\<close> hd show ?thesis
      by (simp add: parseInt10_def)
  next
    assume "sg = ''+''"
    with S Z \<open>ds \<noteq> []\<close> show ?thesis
      by (simp add: parseInt10_def)
  next
    assume "sg = ''-''"
    with S Z \<open>ds \<noteq> []\<close> show ?thesis
      by (simp add: parseInt10_def)
  qed
qed

lemma parseInt10_skip:
  assumes "list_all is_white_space ws"
  shows "parseInt10 (ws @ t) = parseInt10 t"
proof -
  from assms have "dropWhile is_white_space (ws @ t) = dropWhile is_white_space t"
    by (simp add: dropWhile_append list_all_iff)
  then show ?thesis
    by (simp only: parseInt10_def)
qed

lemma parseInt10_no_digits:
  assumes "list_all is_white_space ws" and "sg = [] \<or> sg = ''+'' \<or> sg = ''-''"
    and "rest = [] \<or> \<not> is_digit (hd rest)"
    and "sg = [] \<longrightarrow> rest = [] \<or> (\<not> is_white_space (hd rest) \<and> hd rest \<noteq> CHR ''+'' \<and> hd rest \<noteq> CHR ''-'')"
  shows "parseInt10 (ws @ sg @ rest) = NaN"
proof -
  have Z: "takeWhile is_digit rest = []"
    using assms(3) by (cases rest) auto
  have "parseInt10 (sg @ rest) = NaN"
    using assms(2)
  proof (elim disjE)
    assume sg: "sg = []"
    show ?thesis
    proof (cases rest)
      case Nil
      with sg show ?thesis
        by (simp add: parseInt10_Nil)
    next
      case (Cons c cs)
      with sg assms(3,4) show ?thesis
        by (simp add: parseInt10_def)
    qed
  next
    assume "sg = ''+''"
    with Z show ?thesis
      by (simp add: parseInt10_def sign_chars)
  next
    assume "sg = ''-''"
    with Z show ?thesis
      by (simp add: parseInt10_def sign_chars)
  qed
  with assms(1) show ?thesis
    by (simp add: parseInt10_skip)
qed

lemma to_float64_exact: "\<bar>n\<bar> < 2 ^ 53 \<Longrightarrow> to_float64 n = Fin (of_int n)"
  by (simp add: to_float64_def)

lemma math_int_snoc: "math_int (ds @ [c]) = 10 * math_int ds + (int (of_char c) - 48)"
  by (simp add: math_int_def)

lemma digit_char: "d < 10 \<Longrightarrow> of_char (''0123456789'' ! d) = 48 + d"
proof -
  assume "d < 10"
  then have "d \<in> {0, 1, 2, 3, 4, 5, 6, 7, 8, 9}"
    by auto
  then show ?thesis
    by (elim insertE emptyE) simp_all
qed

lemma math_int_decimal: "math_int (decimal n) = int n"
proof (induction n rule: decimal.induct)
  case (1 n)
  show ?case
  proof (cases "n < 10")
    case True
    then show ?thesis
      by (subst decimal.simps) (simp add: math_int_def digit_char)
  next
    case False
    with 1 have "math_int (decimal (n div 10)) = int (n div 10)"
      by simp
    with False show ?thesis
      by (subst decimal.simps) (simp add: math_int_snoc digit_char zdiv_int zmod_int)
  qed
qed

lemma is_digit_digit_char: "d < 10 \<Longrightarrow> is_digit (''0123456789'' ! d)"
  by (simp add: is_digit_def digit_char)

lemma is_digit_decimal: "list_all is_digit (decimal n)"
proof (induction n rule: decimal.induct)
  case (1 n)
  show ?case
  proof (cases "n < 10")
    case True
    then show ?thesis
      by (subst decimal.simps) (simp add: is_digit_digit_char)
  next
    case False
    with 1 show ?thesis
      by (subst decimal.simps) (simp add: is_digit_digit_char)
  qed
qed

lemma decimal_not_Nil: "decimal n \<noteq> []"
  by (subst decimal.simps) simp


lemma ulp_power: "\<exists>k. ulp a = 2 ^ k"
proof (induction a rule: ulp.induct)
  case (1 a)
  show ?case
  proof (cases "a < 2 ^ 53")
    case True
    then have "ulp a = 2 ^ 0"
      by (subst ulp.simps) simp
    then show ?thesis
      by blast
  next
    case False
    with 1 obtain k where "ulp (a div 2) = 2 ^ k"
      by blast
    with False have "ulp a = 2 ^ Suc k"
      by (subst ulp.simps) simp
    then show ?thesis
      by blast
  qed
qed

lemma ulp_bounds: "2 ^ 52 \<le> a \<Longrightarrow> 2 ^ 52 * ulp a \<le> a \<and> a < 2 ^ 53 * ulp a"
proof (induction a rule: ulp.induct)
  case (1 a)
  show ?case
  proof (cases "a < 2 ^ 53")
    case True
    then have "ulp a = 1"
      by (subst ulp.simps) simp
    with True 1(2) show ?thesis
      by simp
  next
    case False
    then have u: "ulp a = 2 * ulp (a div 2)"
      by (subst ulp.simps) simp
    from False have "2 ^ 52 \<le> a div 2"
      by simp
    with 1(1) False have "2 ^ 52 * ulp (a div 2) \<le> a div 2 \<and> a div 2 < 2 ^ 53 * ulp (a div 2)"
      by simp
    moreover have "2 * (a div 2) \<le> a" "a < 2 * (a div 2) + 2"
      by simp_all
    ultimately show ?thesis
      unfolding u by (simp only: power_numeral_even power_numeral_odd) linarith
  qed
qed

lemma to_float64_overflow:
  assumes "2 ^ 1024 \<le> \<bar>n\<bar>"
  shows "to_float64 n = (if n < 0 then NegInf else PosInf)"
proof -
  define a where "a = \<bar>n\<bar>"
  define p where "p = ulp a"
  define q where "q = a div p"
  from assms have big: "(2::int) ^ 1024 \<le> a"
    by (simp add: a_def)
  then have a52: "2 ^ 52 \<le> a" and a53: "\<not> a < 2 ^ 53"
    by simp_all
  from ulp_bounds [OF a52] have lo: "2 ^ 52 * p \<le> a" and hi: "a < 2 ^ 53 * p"
    by (simp_all add: p_def)
  obtain k where k: "p = 2 ^ k"
    using ulp_power [of a] by (auto simp: p_def)
  from hi big have "(2::int) ^ 1024 < 2 ^ 53 * 2 ^ k"
    by (simp add: k)
  then have "(2::int) ^ 1024 < 2 ^ (53 + k)"
    by (simp add: power_add)
  then have "1024 < 53 + k"
    by (simp only: power_strict_increasing_iff [of "2::int"]) 
  then have "972 \<le> k"
    by simp
  then have "(2::int) ^ 972 \<le> p"
    unfolding k by (rule power_increasing) simp
  have ppos: "0 < p"
    by (simp add: k)
  from lo ppos have "2 ^ 52 \<le> q"
    unfolding q_def by (metis mult.commute zdiv_mono1 nonzero_mult_div_cancel_right less_le)
  have "(2::int) ^ 1024 = 2 ^ 52 * 2 ^ 972"
    by simp
  also have "\<dots> \<le> q * p"
    using \<open>2 ^ 52 \<le> q\<close> \<open>2 ^ 972 \<le> p\<close> by (intro mult_mono) simp_all
  finally have v: "2 ^ 1024 \<le> q * p" .
  then have v': "2 ^ 1024 \<le> (q + 1) * p"
    using ppos by (simp add: algebra_simps)
  show ?thesis
    using a53 v v' unfolding to_float64_def Let_def a_def [symmetric] p_def [symmetric] q_def [symmetric]
    by auto
qed

lemma field_env_warn_parse:
  "field (getFromEnvVars rt) ''warn'' =
     (case process_env rt ''TODO_DAYS_TO_WARN'' of
        None \<Rightarrow> None
      | Some s \<Rightarrow> (case parseInt10 s of Fin r \<Rightarrow> Some (JNum (Fin r)) | _ \<Rightarrow> None))"
  by (simp only: field_env_warn Number_isInteger_getEnvVar)

lemma field_env_error_parse:
  "field (getFromEnvVars rt) ''error'' =
     (case process_env rt ''TODO_DAYS_TO_ERROR'' of
        None \<Rightarrow> None
      | Some s \<Rightarrow> (case parseInt10 s of Fin r \<Rightarrow> Some (JNum (Fin r)) | _ \<Rightarrow> None))"
  by (simp only: field_env_error Number_isInteger_getEnvVar)


lemma to_float64_round:
  assumes "2 ^ 53 \<le> \<bar>n\<bar>"
  shows "\<exists>v. nearest_even_53 \<bar>n\<bar> v
           \<and> to_float64 n =
               (if 2 ^ 1024 \<le> v then (if n < 0 then NegInf else PosInf)
                else Fin (of_int (sgn n * v)))"
proof -
  define a where "a = \<bar>n\<bar>"
  define p where "p = ulp a"
  define q where "q = a div p"
  define r where "r = a mod p"
  define q' where "q' = (if p < 2 * r \<or> (2 * r = p \<and> odd q) then q + 1 else q)"
  from assms have a53: "\<not> a < 2 ^ 53" and a52: "2 ^ 52 \<le> a"
    by (simp_all add: a_def)
  obtain k where k: "p = 2 ^ k"
    using ulp_power [of a] by (auto simp: p_def)
  then have ppos: "0 < p"
    by simp
  from ulp_bounds [OF a52] have lo: "2 ^ 52 * p \<le> a" and hi: "a < 2 ^ 53 * p"
    by (simp_all add: p_def)
  have split: "a = q * p + r" and r: "0 \<le> r" "r < p"
    using ppos by (simp_all add: q_def r_def)
  have q52: "2 ^ 52 \<le> q"
    unfolding q_def using lo ppos
    by (metis mult.commute zdiv_mono1 nonzero_mult_div_cancel_right less_le)
  have "q * p < 2 ^ 53 * p"
    using split r hi by linarith
  then have q53: "q < 2 ^ 53"
    using ppos by simp
  have v: "q' * p - a = (if p < 2 * r \<or> (2 * r = p \<and> odd q) then p - r else - r)"
    by (simp add: q'_def split algebra_simps)
  have "nearest_even_53 a (q' * p)"
    unfolding nearest_even_53_def
  proof (intro exI [of _ k] exI [of _ q'] conjI)
    show "2 ^ 52 * 2 ^ k \<le> a" "a < 2 ^ 53 * 2 ^ k"
      using lo hi by (simp_all add: k)
    show "2 ^ 52 \<le> q'" "q' \<le> 2 ^ 53"
      using q52 q53 by (simp_all add: q'_def)
    show "q' * p = q' * 2 ^ k"
      by (simp add: k)
    show "2 * \<bar>q' * p - a\<bar> \<le> 2 ^ k"
      unfolding v k [symmetric] using r by auto
    show "2 * \<bar>q' * p - a\<bar> = 2 ^ k \<longrightarrow> even q'"
      unfolding v k [symmetric] using r by (auto simp: q'_def)
  qed
  moreover have "to_float64 n =
      (if 2 ^ 1024 \<le> q' * p then (if n < 0 then NegInf else PosInf)
       else Fin (of_int (sgn n * (q' * p))))"
    using a53
    unfolding to_float64_def Let_def a_def [symmetric] p_def [symmetric] q_def [symmetric]
      r_def [symmetric] q'_def [symmetric]
    by simp
  ultimately show ?thesis
    unfolding a_def by blast
qed

lemma nearest_even_53_bits: "nearest_even_53 a v \<Longrightarrow> bits53 v"
proof -
  assume "nearest_even_53 a v"
  then obtain k q where q: "2 ^ 52 \<le> q" "q \<le> 2 ^ 53" "v = q * 2 ^ k"
    unfolding nearest_even_53_def by blast
  show ?thesis
  proof (cases "q = 2 ^ 53")
    case True
    with q have "v = 1 * 2 ^ (53 + k)"
      by (simp add: power_add)
    then show ?thesis
      unfolding bits53_def by (intro exI [of _ 1] exI [of _ "53 + k"]) simp
  next
    case False
    with q have "\<bar>q\<bar> < 2 ^ 53"
      by simp
    with q show ?thesis
      unfolding bits53_def by blast
  qed
qed

lemma nearest_even_53_nearest:
  assumes "nearest_even_53 a v" and "bits53 d"
  shows "\<bar>v - a\<bar> \<le> \<bar>d - a\<bar>"
proof -
  from assms(1) obtain k q where kq: "2 ^ 52 * 2 ^ k \<le> a" "a < 2 ^ 53 * 2 ^ k"
    "v = q * 2 ^ k" "2 * \<bar>v - a\<bar> \<le> 2 ^ k"
    unfolding nearest_even_53_def by blast
  define p :: int where "p = 2 ^ k"
  have ppos: "0 < p"
    by (simp add: p_def)
  note kq = kq [folded p_def]
  have multiple: "\<bar>v - a\<bar> \<le> \<bar>t * p - a\<bar>" for t
  proof (cases "t = q")
    case True
    with kq show ?thesis by simp
  next
    case False
    then have "1 \<le> \<bar>t - q\<bar>"
      by simp
    then have "1 * p \<le> \<bar>t - q\<bar> * p"
      using ppos by (intro mult_right_mono) simp_all
    also have "\<bar>t - q\<bar> * p = \<bar>t * p - v\<bar>"
      using ppos by (simp add: kq abs_mult left_diff_distrib [symmetric])
    finally have "p \<le> \<bar>t * p - v\<bar>"
      by simp
    moreover define w where "w = t * p"
    ultimately have "p \<le> \<bar>w - v\<bar>"
      by simp
    with kq(4) have "\<bar>v - a\<bar> \<le> \<bar>w - a\<bar>"
      by arith
    then show ?thesis
      by (simp add: w_def)
  qed
  from assms(2) obtain m j where mj: "\<bar>m\<bar> < 2 ^ 53" "d = m * 2 ^ j"
    unfolding bits53_def by blast
  show ?thesis
  proof (cases "k \<le> j")
    case True
    then have "d = (m * 2 ^ (j - k)) * p"
      by (simp add: mj p_def power_add [symmetric])
    then show ?thesis
      using multiple [of "m * 2 ^ (j - k)"] by simp
  next
    case False
    then have "Suc j \<le> k"
      by simp
    then have "(2::int) ^ Suc j \<le> 2 ^ k"
      by (intro power_increasing) simp_all
    then have j: "2 * 2 ^ j \<le> p"
      by (simp add: p_def)
    have "m * 2 ^ j < 2 ^ 53 * 2 ^ j"
      using mj(1) by (intro mult_strict_right_mono) simp_all
    then have "2 * d < 2 ^ 53 * (2 * 2 ^ j)"
      unfolding mj(2) by simp
    also have "\<dots> \<le> 2 ^ 53 * p"
      using j by (intro mult_left_mono) simp_all
    finally have "2 * d < 2 ^ 53 * p" .
    then have "d < 2 ^ 52 * p"
      by simp
    with kq(1) have "\<bar>2 ^ 52 * p - a\<bar> \<le> \<bar>d - a\<bar>"
      by linarith
    with multiple [of "2 ^ 52"] show ?thesis
      by linarith
  qed
qed


section \<open>The environment's record\<close>

text \<open>
  Claim C4 as stated fails above \<open>2 ^ 53\<close>: the field holds a double, the one nearest
  to the integer that was parsed. The digits \<open>9007199254740993\<close> (\<open>2 ^ 53 + 1\<close>) give
  the field \<open>9007199254740992\<close>.
\<close>

theorem env_integer_counterexample:
  "field (getFromEnvVars (example_runtime None [(''TODO_DAYS_TO_WARN'', ''9007199254740993'')]))
     ''warn'' = Some (JNum (Fin 9007199254740992))
   \<and> field (getFromEnvVars (example_runtime None [(''TODO_DAYS_TO_WARN'', ''9007199254740993'')]))
     ''warn'' \<noteq> Some (JNum (Fin 9007199254740993))
   \<and> math_int ''9007199254740993'' = 9007199254740993"
  by (simp add: field_env_warn_parse example_env parse_defs ulp.simps)

text \<open>
  Claim C4, as the code has it. The environment's record has the field \<open>warn\<close>
  (\<open>error\<close>) exactly when \<^verbatim>\<open>TODO_DAYS_TO_WARN\<close> (\<^verbatim>\<open>TODO_DAYS_TO_ERROR\<close>) is set and
  \<^verbatim>\<open>parseInt\<close> of its value is a finite number, and the field is that number. A value
  made of white space, an optional sign, digits and a rest that does not start with a
  digit parses, whatever the rest is,
  \<^item> to the signed value of the digits when that is below \<open>2 ^ 53\<close> in magnitude;
  \<^item> from \<open>2 ^ 53\<close> on, to the value rounded to 53 significant bits, to nearest and
    half way to even, with its sign: no integer of 53 significant bits is nearer to
    the value; and to an infinity when the rounded value reaches \<open>2 ^ 1024\<close>, as it
    does when the value does, so that the field is left out.
  A value with no digit at that place parses to \<open>NaN\<close>, and its field is left out.
  The value of a digit string is the number it writes in decimal.
\<close>

theorem env_partial:
  "field (getFromEnvVars rt) ''warn'' =
     (case process_env rt ''TODO_DAYS_TO_WARN'' of
        None \<Rightarrow> None
      | Some s \<Rightarrow> (case parseInt10 s of Fin r \<Rightarrow> Some (JNum (Fin r)) | _ \<Rightarrow> None))
   \<and> field (getFromEnvVars rt) ''error'' =
     (case process_env rt ''TODO_DAYS_TO_ERROR'' of
        None \<Rightarrow> None
      | Some s \<Rightarrow> (case parseInt10 s of Fin r \<Rightarrow> Some (JNum (Fin r)) | _ \<Rightarrow> None))
   \<and> (list_all is_white_space ws \<and> (sg = [] \<or> sg = ''+'' \<or> sg = ''-'')
        \<and> ds \<noteq> [] \<and> list_all is_digit ds \<and> (rest = [] \<or> \<not> is_digit (hd rest))
        \<and> \<bar>math_int ds\<bar> < 2 ^ 53
      \<longrightarrow> parseInt10 (ws @ sg @ ds @ rest) =
            Fin (of_int ((if sg = ''-'' then - 1 else 1) * math_int ds)))
   \<and> (list_all is_white_space ws \<and> (sg = [] \<or> sg = ''+'' \<or> sg = ''-'')
        \<and> ds \<noteq> [] \<and> list_all is_digit ds \<and> (rest = [] \<or> \<not> is_digit (hd rest))
        \<and> 2 ^ 1024 \<le> math_int ds
      \<longrightarrow> parseInt10 (ws @ sg @ ds @ rest) = (if sg = ''-'' then NegInf else PosInf))
   \<and> (list_all is_white_space ws \<and> (sg = [] \<or> sg = ''+'' \<or> sg = ''-'')
        \<and> ds \<noteq> [] \<and> list_all is_digit ds \<and> (rest = [] \<or> \<not> is_digit (hd rest))
        \<and> 2 ^ 53 \<le> math_int ds
      \<longrightarrow> (\<exists>v. nearest_even_53 (math_int ds) v
            \<and> parseInt10 (ws @ sg @ ds @ rest) =
                (if 2 ^ 1024 \<le> v then (if sg = ''-'' then NegInf else PosInf)
                 else Fin (of_int ((if sg = ''-'' then - 1 else 1) * v)))))
   \<and> (list_all is_white_space ws \<and> (sg = [] \<or> sg = ''+'' \<or> sg = ''-'')
        \<and> (rest = [] \<or> \<not> is_digit (hd rest))
        \<and> (sg = [] \<longrightarrow> rest = [] \<or> (\<not> is_white_space (hd rest)
              \<and> hd rest \<noteq> CHR ''+'' \<and> hd rest \<noteq> CHR ''-''))
      \<longrightarrow> parseInt10 (ws @ sg @ rest) = NaN)
   \<and> math_int (decimal m) = int m \<and> list_all is_digit (decimal m) \<and> decimal m \<noteq> []
   \<and> (nearest_even_53 a v \<longrightarrow> bits53 v \<and> (\<forall>d. bits53 d \<longrightarrow> \<bar>v - a\<bar> \<le> \<bar>d - a\<bar>))"
proof (intro conjI impI)
  show "field (getFromEnvVars rt) ''warn'' =
     (case process_env rt ''TODO_DAYS_TO_WARN'' of
        None \<Rightarrow> None
      | Some s \<Rightarrow> (case parseInt10 s of Fin r \<Rightarrow> Some (JNum (Fin r)) | _ \<Rightarrow> None))"
    by (rule field_env_warn_parse)
next
  show "field (getFromEnvVars rt) ''error'' =
     (case process_env rt ''TODO_DAYS_TO_ERROR'' of
        None \<Rightarrow> None
      | Some s \<Rightarrow> (case parseInt10 s of Fin r \<Rightarrow> Some (JNum (Fin r)) | _ \<Rightarrow> None))"
    by (rule field_env_error_parse)
next
  assume h: "list_all is_white_space ws \<and> (sg = [] \<or> sg = ''+'' \<or> sg = ''-'')
        \<and> ds \<noteq> [] \<and> list_all is_digit ds \<and> (rest = [] \<or> \<not> is_digit (hd rest))
        \<and> \<bar>math_int ds\<bar> < 2 ^ 53"
  then have "parseInt10 (ws @ sg @ ds @ rest) =
               to_float64 ((if sg = ''-'' then - 1 else 1) * math_int ds)"
    by (intro parseInt10_digits) simp_all
  moreover from h have "\<bar>(if sg = ''-'' then - 1 else 1) * math_int ds\<bar> < 2 ^ 53"
    by (simp add: abs_mult)
  ultimately show "parseInt10 (ws @ sg @ ds @ rest) =
            Fin (of_int ((if sg = ''-'' then - 1 else 1) * math_int ds))"
    by (simp only: to_float64_exact)
next
  assume h: "list_all is_white_space ws \<and> (sg = [] \<or> sg = ''+'' \<or> sg = ''-'')
        \<and> ds \<noteq> [] \<and> list_all is_digit ds \<and> (rest = [] \<or> \<not> is_digit (hd rest))
        \<and> 2 ^ 1024 \<le> math_int ds"
  then have "parseInt10 (ws @ sg @ ds @ rest) =
               to_float64 ((if sg = ''-'' then - 1 else 1) * math_int ds)"
    by (intro parseInt10_digits) simp_all
  moreover from h have "2 ^ 1024 \<le> \<bar>(if sg = ''-'' then - 1 else 1) * math_int ds\<bar>"
    by (simp add: abs_mult)
  moreover from h have "0 < math_int ds"
    by (simp add: less_le_trans [of 0 "2 ^ 1024"])
  ultimately show "parseInt10 (ws @ sg @ ds @ rest) = (if sg = ''-'' then NegInf else PosInf)"
    by (simp add: to_float64_overflow)
next
  let ?n = "(if sg = ''-'' then - 1 else 1) * math_int ds"
  assume h: "list_all is_white_space ws \<and> (sg = [] \<or> sg = ''+'' \<or> sg = ''-'')
        \<and> ds \<noteq> [] \<and> list_all is_digit ds \<and> (rest = [] \<or> \<not> is_digit (hd rest))
        \<and> 2 ^ 53 \<le> math_int ds"
  then have p: "parseInt10 (ws @ sg @ ds @ rest) = to_float64 ?n"
    by (intro parseInt10_digits) simp_all
  from h have pos: "0 < math_int ds"
    by (simp add: less_le_trans [of 0 "2 ^ 53"])
  then have n: "\<bar>?n\<bar> = math_int ds" "?n < 0 \<longleftrightarrow> sg = ''-''"
    "sgn ?n = (if sg = ''-'' then - 1 else 1)"
    by (simp_all add: abs_mult sgn_mult)
  from h have "2 ^ 53 \<le> \<bar>?n\<bar>"
    by (simp add: n(1))
  from to_float64_round [OF this] obtain v where v: "nearest_even_53 (math_int ds) v"
    "to_float64 ?n =
       (if 2 ^ 1024 \<le> v then (if ?n < 0 then NegInf else PosInf)
        else Fin (of_int (sgn ?n * v)))"
    unfolding n(1) by blast
  show "\<exists>v. nearest_even_53 (math_int ds) v
            \<and> parseInt10 (ws @ sg @ ds @ rest) =
                (if 2 ^ 1024 \<le> v then (if sg = ''-'' then NegInf else PosInf)
                 else Fin (of_int ((if sg = ''-'' then - 1 else 1) * v)))"
    using v unfolding p n(2) n(3) by blast
next
  assume "list_all is_white_space ws \<and> (sg = [] \<or> sg = ''+'' \<or> sg = ''-'')
        \<and> (rest = [] \<or> \<not> is_digit (hd rest))
        \<and> (sg = [] \<longrightarrow> rest = [] \<or> (\<not> is_white_space (hd rest)
              \<and> hd rest \<noteq> CHR ''+'' \<and> hd rest \<noteq> CHR ''-''))"
  then show "parseInt10 (ws @ sg @ rest) = NaN"
    by (intro parseInt10_no_digits) simp_all
next
  show "math_int (decimal m) = int m"
    by (rule math_int_decimal)
next
  show "list_all is_digit (decimal m)"
    by (rule is_digit_decimal)
next
  show "decimal m \<noteq> []"
    by (rule decimal_not_Nil)
next
  assume "nearest_even_53 a v"
  then show "bits53 v"
    by (rule nearest_even_53_bits)
next
  assume "nearest_even_53 a v"
  then show "\<forall>d. bits53 d \<longrightarrow> \<bar>v - a\<bar> \<le> \<bar>d - a\<bar>"
    using nearest_even_53_nearest by blast
qed

theorem env_partial_witness:
  "field (getFromEnvVars
      (example_runtime None [(''TODO_DAYS_TO_WARN'', ''10x''), (''TODO_DAYS_TO_ERROR'', ''abc'')]))
     ''warn'' = Some (JNum (Fin 10))
   \<and> field (getFromEnvVars
      (example_runtime None [(''TODO_DAYS_TO_WARN'', ''10x''), (''TODO_DAYS_TO_ERROR'', ''abc'')]))
     ''error'' = None
   \<and> field (getFromEnvVars (example_runtime None [(''TODO_DAYS_TO_WARN'', ''15'')])) ''warn''
       = Some (JNum (Fin 15))
   \<and> (\<exists>v. nearest_even_53 9007199254740993 v
         \<and> parseInt10 ''9007199254740993'' = Fin (of_int v))"
proof -
  let ?rt = "example_runtime None [(''TODO_DAYS_TO_WARN'', ''10x''), (''TODO_DAYS_TO_ERROR'', ''abc'')]"
  note t = env_partial [of ?rt "[]" "[]" "''10''" "''x''" 0]
  have p: "parseInt10 ''10x'' = Fin 10"
    using t by (simp add: is_digit_def math_int_def)
  note u = env_partial [of ?rt "[]" "[]" "[]" "''abc''" 0]
  have q: "parseInt10 ''abc'' = NaN"
    using u by (simp add: is_digit_def is_white_space_def)
  have a: "field (getFromEnvVars ?rt) ''warn'' = Some (JNum (Fin 10))"
    using t p by (simp add: example_env)
  have b: "field (getFromEnvVars ?rt) ''error'' = None"
    using t q by (simp add: example_env)
  note v = env_partial [of "example_runtime None [(''TODO_DAYS_TO_WARN'', ''15'')]" "[]" "[]" "''15''" "[]" 15]
  have r: "parseInt10 ''15'' = Fin 15"
    using v by (simp add: is_digit_def math_int_def)
  have c: "field (getFromEnvVars (example_runtime None [(''TODO_DAYS_TO_WARN'', ''15'')])) ''warn''
             = Some (JNum (Fin 15))"
    using v r by (simp add: example_env)
  note w = env_partial [of ?rt "[]" "[]" "''9007199254740993''" "[]" 0 0 0]
  have big: "math_int ''9007199254740993'' = 9007199254740993"
    by (simp add: math_int_def)
  have fin: "parseInt10 ''9007199254740993'' = Fin 9007199254740992"
    by (simp add: parse_defs ulp.simps)
  have e: "\<exists>v. nearest_even_53 9007199254740993 v
         \<and> parseInt10 ''9007199254740993'' = (if 2 ^ 1024 \<le> v then PosInf else Fin (of_int v))"
    using w by (simp add: is_digit_def big cong del: if_weak_cong)
  have d: "\<exists>v. nearest_even_53 9007199254740993 v
         \<and> parseInt10 ''9007199254740993'' = Fin (of_int v)"
    using e unfolding fin by (auto split: if_splits)
  from a b c d show ?thesis
    by blast
qed

section \<open>Calls in a process\<close>

lemma deref_heap_update:
  "src \<noteq> Ref t \<Longrightarrow> deref (s\<lparr>heap := (heap s)[t := x]\<rparr>) src = deref s src"
  by (cases src) auto

lemma foldl_set_prop:
  assumes "t < length (heap s)" and "src \<noteq> Ref t"
  shows "foldl (\<lambda>s k. set_prop t k (get_prop (deref s src) k) s) s ks =
           s\<lparr>heap := (heap s)
                [t := foldl (\<lambda>obj k. set_property obj k (get_prop (deref s src) k))
                        (heap s ! t) ks]\<rparr>"
proof (induction ks rule: rev_induct)
  case Nil
  show ?case by simp
next
  case (snoc k ks)
  with assms show ?case
    by (simp add: set_prop_def deref_heap_update)
qed

lemma assign_from_st_eq:
  "t < length (heap s) \<Longrightarrow> src \<noteq> Ref t \<Longrightarrow>
     assign_from_st t s src = s\<lparr>heap := (heap s)[t := assign_from (heap s ! t) (deref s src)]\<rparr>"
  by (simp add: assign_from_st_def assign_from_def foldl_set_prop)

lemma Object_assign_st_eq:
  assumes "t < length (heap s)" and "e \<noteq> t" and "c \<noteq> t"
  shows "Object_assign_st t [Val p, Ref e, Ref c] s =
           s\<lparr>heap := (heap s)[t := Object_assign (heap s ! t) [p, heap s ! e, heap s ! c]]\<rparr>"
  using assms by (simp add: Object_assign_st_def Object_assign_def assign_from_st_eq)

lemma getFromEnvVars_st_eq:
  "getFromEnvVars_st rt s = (s\<lparr>heap := heap s @ [getFromEnvVars rt]\<rparr>, length (heap s))"
  by (simp add: getFromEnvVars_st_def getFromEnvVars_def new_object_def set_prop_def Let_def
      set_property_def)

lemma assign_from_JUndefined: "assign_from t JUndefined = t"
  by (simp add: assign_from_def)

lemma assign_from_empty: "assign_from t (JObj []) = t"
  by (simp add: assign_from_def)

lemma getTodoConfig_JUndefined:
  "getTodoConfig rt baseDir JUndefined = getTodoConfig rt baseDir (JObj [])"
  by (simp add: getTodoConfig_def)

lemma merged_config_eq:
  "merged_config rt baseDir c =
     Object_assign (JObj []) [getFromPackageJson rt baseDir, getFromEnvVars rt, c]"
  by (simp add: merged_config_def Object_assign_def assign_from_JUndefined assign_from_empty)

subsection \<open>The module cache\<close>

lemma cached_require_heap [simp]: "cached_require rt (s\<lparr>heap := h\<rparr>) = cached_require rt s"
  by (simp add: cached_require_def fun_eq_iff)

lemma require_st_result: "snd (require_st rt p s) = cached_require rt s p"
  by (simp add: require_st_def cached_require_def split: option.splits)

lemma require_st_heap: "heap (fst (require_st rt p s)) = heap s"
  by (simp add: require_st_def split: option.splits)

lemma require_st_cache:
  "module_cache (fst (require_st rt p s)) =
     (case map_of (module_cache s) p of
        Some v \<Rightarrow> module_cache s
      | None \<Rightarrow> (case require rt p of
                  Some v \<Rightarrow> (p, v) # module_cache s
                | None \<Rightarrow> module_cache s))"
  by (simp add: require_st_def split: option.splits)

lemma require_st_stable:
  "cached_require rt (fst (require_st rt p s)) = cached_require rt s"
  by (auto simp: require_st_def cached_require_def fun_eq_iff split: option.splits)

lemma require_st_state:
  "fst (require_st rt p s) = s\<lparr>module_cache := module_cache (fst (require_st rt p s))\<rparr>"
  by (simp add: require_st_def split: option.splits)

lemma getFromPackageJson_cached:
  "getFromPackageJson (rt\<lparr>require := cached_require rt s\<rparr>) baseDir =
     snd (getFromPackageJson_st rt baseDir s)"
  by (simp add: getFromPackageJson_def getFromPackageJson_st_def Let_def split_beta
      require_st_result)

lemma getFromPackageJson_st_state:
  "fst (getFromPackageJson_st rt baseDir s) =
     fst (require_st rt (path_join rt baseDir ''package.json'') s)"
  by (simp add: getFromPackageJson_st_def Let_def split_beta)

lemma getFromEnvVars_cached:
  "getFromEnvVars (rt\<lparr>require := r\<rparr>) = getFromEnvVars rt"
  by (simp add: getFromEnvVars_def getEnvVar_def)

lemma invalid_message_cached:
  "invalid_message (rt\<lparr>require := r\<rparr>) w e = invalid_message rt w e"
  by (simp add: invalid_message_def)

subsection \<open>A call on the state is the resolver, with the cache in front of require\<close>

lemma getTodoConfig_st_None:
  "getTodoConfig_st rt baseDir None s =
     getTodoConfig_st rt baseDir (Some (length (heap s))) (s\<lparr>heap := heap s @ [JObj []]\<rparr>)"
  by (simp add: getTodoConfig_st_def new_object_def)

lemma getTodoConfig_st_Some:
  assumes a: "a < length (heap s)"
  shows "\<exists>new. heap (fst (getTodoConfig_st rt baseDir (Some a) s)) = heap s @ new
           \<and> module_cache (fst (getTodoConfig_st rt baseDir (Some a) s)) =
               module_cache (fst (require_st rt (path_join rt baseDir ''package.json'') s))
           \<and> outcome (getTodoConfig_st rt baseDir (Some a) s) =
               getTodoConfig (rt\<lparr>require := cached_require rt s\<rparr>) baseDir (heap s ! a)
           \<and> (\<forall>m. snd (getTodoConfig_st rt baseDir (Some a) s) = Inr m \<longrightarrow>
                 length (heap s) \<le> m \<and> m < length (heap s @ new))"
proof -
  define rt' where "rt' = rt\<lparr>require := cached_require rt s\<rparr>"
  define s1 where "s1 = fst (getFromPackageJson_st rt baseDir s)"
  define pkg where "pkg = getFromPackageJson rt' baseDir"
  define E where "E = getFromEnvVars rt"
  define M where "M = merged_config rt' baseDir (heap s ! a)"
  define F where "F = final_config rt' baseDir (heap s ! a)"
  define dflt where "dflt \<longleftrightarrow> Object_keys M = [] \<and> typeof pkg = ''undefined''"
  define new where "new = (if dflt then [E, M, JObj default_config] else [E, M])"
  define S where "S = s1\<lparr>heap := heap s @ new\<rparr>"
  define m where "m = (if dflt then length (heap s) + 2 else length (heap s) + 1)"
  have h1: "heap s1 = heap s"
    by (simp add: s1_def getFromPackageJson_st_state require_st_heap)
  have pk: "getFromPackageJson_st rt baseDir s = (s1, pkg)"
    by (simp add: s1_def pkg_def rt'_def getFromPackageJson_cached)
  have M: "Object_assign (JObj []) [pkg, E, heap s ! a] = M"
    by (simp add: M_def merged_config_eq pkg_def E_def rt'_def getFromEnvVars_cached)
  have asg: "Object_assign_st (Suc (length (heap s))) [Val pkg, Ref (length (heap s)), Ref a]
               (s1\<lparr>heap := heap s @ [E, JObj []]\<rparr>)
               = s1\<lparr>heap := heap s @ [E, M]\<rparr>"
    using a by (simp add: Object_assign_st_eq nth_append list_update_append M)
  have F: "F = (if dflt then JObj default_config else M)"
    by (simp add: F_def final_config_def dflt_def M_def pkg_def)
  have Sm: "heap S ! m = F"
    by (simp add: S_def m_def F new_def nth_append)
  have run: "getTodoConfig_st rt baseDir (Some a) s =
      (case (get_prop F ''warn'', get_prop F ''error'') of
         (JNum w, JNum e) \<Rightarrow>
           if num_ge w e then (S, Inl (Error (invalid_message rt w e))) else (S, Inr m)
       | _ \<Rightarrow> (S, Inr m))"
  proof (cases dflt)
    case True
    then have d: "Object_keys M = []" "typeof pkg = ''undefined''"
      by (simp_all add: dflt_def)
    from True show ?thesis
      unfolding getTodoConfig_st_def
      by (simp add: pk getFromEnvVars_st_eq h1 new_object_def asg nth_append S_def m_def F
          new_def d default_config_def Let_def flip: E_def)
  next
    case False
    then have d: "\<not> (Object_keys M = [] \<and> typeof pkg = ''undefined'')"
      by (simp add: dflt_def)
    from False show ?thesis
      unfolding getTodoConfig_st_def
      by (simp add: pk getFromEnvVars_st_eq h1 new_object_def asg nth_append S_def m_def F
          new_def d Let_def flip: E_def split: jsval.splits)
  qed
  have fst: "fst (getTodoConfig_st rt baseDir (Some a) s) = S"
    by (simp add: run split: jsval.splits)
  have gc: "getTodoConfig rt' baseDir (heap s ! a) =
      (case (get_prop F ''warn'', get_prop F ''error'') of
         (JNum w, JNum e) \<Rightarrow>
           if num_ge w e then Inl (Error (invalid_message rt w e)) else Inr F
       | _ \<Rightarrow> Inr F)"
    unfolding getTodoConfig_cases F_def rt'_def invalid_message_cached by (rule refl)
  have out: "outcome (getTodoConfig_st rt baseDir (Some a) s) =
               getTodoConfig rt' baseDir (heap s ! a)"
    by (simp add: run outcome_def gc Sm split: jsval.splits)
  have res: "\<forall>r. snd (getTodoConfig_st rt baseDir (Some a) s) = Inr r \<longrightarrow> r = m"
    by (auto simp: run split: jsval.splits if_splits)
  have len: "length (heap s) \<le> m \<and> m < length (heap s @ new)"
    by (simp add: m_def new_def)
  have hp: "heap S = heap s @ new"
    by (simp add: S_def)
  have mc: "module_cache S =
              module_cache (fst (require_st rt (path_join rt baseDir ''package.json'') s))"
    by (simp add: S_def s1_def getFromPackageJson_st_state)
  from fst out res len hp mc show ?thesis
    unfolding rt'_def by (intro exI [of _ new]) auto
qed

lemma getTodoConfig_st_refines:
  assumes "case todoConfig of None \<Rightarrow> True | Some a \<Rightarrow> a < length (heap s)"
  shows "\<exists>new. heap (fst (getTodoConfig_st rt baseDir todoConfig s)) = heap s @ new
           \<and> module_cache (fst (getTodoConfig_st rt baseDir todoConfig s)) =
               module_cache (fst (require_st rt (path_join rt baseDir ''package.json'') s))
           \<and> outcome (getTodoConfig_st rt baseDir todoConfig s) =
               getTodoConfig (rt\<lparr>require := cached_require rt s\<rparr>) baseDir
                 (todoConfig_value s todoConfig)
           \<and> (\<forall>m. snd (getTodoConfig_st rt baseDir todoConfig s) = Inr m \<longrightarrow>
                 length (heap s) \<le> m \<and> m < length (heap s @ new))"
proof (cases todoConfig)
  case (Some a)
  with assms have "a < length (heap s)"
    by simp
  from getTodoConfig_st_Some [OF this, of rt baseDir] Some show ?thesis
    by (simp add: todoConfig_value_def)
next
  case None
  let ?s = "s\<lparr>heap := heap s @ [JObj []]\<rparr>"
  have "length (heap s) < length (heap ?s)"
    by simp
  from getTodoConfig_st_Some [OF this, of rt baseDir]
  obtain new where new:
    "heap (fst (getTodoConfig_st rt baseDir None s)) = (heap s @ [JObj []]) @ new"
    "module_cache (fst (getTodoConfig_st rt baseDir None s)) =
       module_cache (fst (require_st rt (path_join rt baseDir ''package.json'') ?s))"
    "outcome (getTodoConfig_st rt baseDir None s) =
       getTodoConfig (rt\<lparr>require := cached_require rt s\<rparr>) baseDir (JObj [])"
    "\<forall>m. snd (getTodoConfig_st rt baseDir None s) = Inr m \<longrightarrow>
       length (heap s @ [JObj []]) \<le> m \<and> m < length ((heap s @ [JObj []]) @ new)"
    by (auto simp: getTodoConfig_st_None)
  have "module_cache (fst (require_st rt (path_join rt baseDir ''package.json'') ?s)) =
          module_cache (fst (require_st rt (path_join rt baseDir ''package.json'') s))"
    by (simp add: require_st_cache split: option.splits)
  with new None show ?thesis
    by (intro exI [of _ "JObj [] # new"]) (auto simp: getTodoConfig_JUndefined todoConfig_value_def)
qed


subsection \<open>Worked calls\<close>

lemma example_require:
  "require (example_runtime m vars) p = (if p = ''/project/package.json'' then m else None)"
  by (simp add: example_runtime_def)

lemma example_path_join: "path_join (example_runtime m vars) dir file = dir @ ''/'' @ file"
  by (simp add: example_runtime_def)

lemmas store_eval =
  getTodoConfig_st_def getFromPackageJson_st_def require_st_def getFromEnvVars_st_def
  new_object_def set_prop_def Object_assign_st_def assign_from_st_def getEnvVar_def Let_def
  set_property_def reaches_setter_def Object_keys_def opt_chain_def manifest_with_def
  example_require example_path_join example_env example_number_to_string

lemma example_store_run:
  "getTodoConfig_st
     (example_runtime (manifest_with (JObj [(''warn'', JNum (Fin 5)), (''error'', JNum (Fin 10))]))
        [(''TODO_DAYS_TO_WARN'', ''7'')])
     ''/project'' (Some 0) \<lparr>heap = [JObj [(''error'', JNum (Fin 20))]], module_cache = []\<rparr>
   = (\<lparr>heap = [JObj [(''error'', JNum (Fin 20))],
               JObj [(''warn'', JNum (Fin 7))],
               JObj [(''warn'', JNum (Fin 7)), (''error'', JNum (Fin 20))]],
       module_cache =
         [(''/project/package.json'',
           JObj [(''name'', JStr ''project''),
                 (''lintTodo'', JObj [(''daysToDecay'',
                    JObj [(''warn'', JNum (Fin 5)), (''error'', JNum (Fin 10))])])])]\<rparr>,
      Inr 2)"
  by (simp add: store_eval parse_defs)

lemma example_store_raise:
  "getTodoConfig_st (example_runtime None []) ''/project'' (Some 0)
     \<lparr>heap = [JObj [(''warn'', JNum (Fin 10)), (''error'', JNum (Fin 5))]], module_cache = []\<rparr>
   = (\<lparr>heap = [JObj [(''warn'', JNum (Fin 10)), (''error'', JNum (Fin 5))],
               JObj [],
               JObj [(''warn'', JNum (Fin 10)), (''error'', JNum (Fin 5))]],
       module_cache = []\<rparr>,
      Inl (Error (invalid_message (example_runtime None []) (Fin 10) (Fin 5))))"
  by (simp add: store_eval)

lemma example_store_default:
  "getTodoConfig_st (example_runtime None []) ''/project'' None \<lparr>heap = [], module_cache = []\<rparr>
   = (\<lparr>heap = [JObj [], JObj [], JObj [],
               JObj [(''warn'', JNum (Fin 30)), (''error'', JNum (Fin 60))]],
       module_cache = []\<rparr>, Inr 3)"
  by (simp add: store_eval default_config_def)

lemma example_store_load:
  "getTodoConfig_st
     (example_runtime (manifest_with (JObj [(''warn'', JNum (Fin 5)), (''error'', JNum (Fin 10))])) [])
     ''/project'' None \<lparr>heap = [], module_cache = []\<rparr>
   = (\<lparr>heap = [JObj [], JObj [],
               JObj [(''warn'', JNum (Fin 5)), (''error'', JNum (Fin 10))]],
       module_cache =
         [(''/project/package.json'',
           JObj [(''name'', JStr ''project''),
                 (''lintTodo'', JObj [(''daysToDecay'',
                    JObj [(''warn'', JNum (Fin 5)), (''error'', JNum (Fin 10))])])])]\<rparr>,
      Inr 2)"
  by (simp add: store_eval)

lemma example_store_fresh:
  "getTodoConfig_st
     (example_runtime (manifest_with (JObj [(''warn'', JNum (Fin 1)), (''error'', JNum (Fin 2))])) [])
     ''/project'' None \<lparr>heap = [], module_cache = []\<rparr>
   = (\<lparr>heap = [JObj [], JObj [],
               JObj [(''warn'', JNum (Fin 1)), (''error'', JNum (Fin 2))]],
       module_cache =
         [(''/project/package.json'',
           JObj [(''name'', JStr ''project''),
                 (''lintTodo'', JObj [(''daysToDecay'',
                    JObj [(''warn'', JNum (Fin 1)), (''error'', JNum (Fin 2))])])])]\<rparr>,
      Inr 2)"
  by (simp add: store_eval)

lemma example_store_cached:
  "getTodoConfig_st (example_runtime m []) ''/project'' None
     \<lparr>heap = [JObj [], JObj [],
               JObj [(''warn'', JNum (Fin 5)), (''error'', JNum (Fin 10))]],
       module_cache =
         [(''/project/package.json'',
           JObj [(''name'', JStr ''project''),
                 (''lintTodo'', JObj [(''daysToDecay'',
                    JObj [(''warn'', JNum (Fin 5)), (''error'', JNum (Fin 10))])])])]\<rparr>
   = (\<lparr>heap = [JObj [], JObj [],
               JObj [(''warn'', JNum (Fin 5)), (''error'', JNum (Fin 10))],
               JObj [], JObj [],
               JObj [(''warn'', JNum (Fin 5)), (''error'', JNum (Fin 10))]],
       module_cache =
         [(''/project/package.json'',
           JObj [(''name'', JStr ''project''),
                 (''lintTodo'', JObj [(''daysToDecay'',
                    JObj [(''warn'', JNum (Fin 5)), (''error'', JNum (Fin 10))])])])]\<rparr>,
      Inr 5)"
  by (simp add: store_eval)

section \<open>The caller's objects\<close>

text \<open>
  Claim C9. A call never writes to the object it gets as \<open>todoConfig\<close>: after the
  call, whether it returns or raises, that object and every other object of the
  caller's heap are as before, and the record returned is a new object. The merge
  target and the record of the environment are allocated by the call.
\<close>

theorem override_unchanged:
  "a < length (heap s) \<Longrightarrow>
     heap (fst (getTodoConfig_st rt baseDir (Some a) s)) ! a = heap s ! a
     \<and> take (length (heap s)) (heap (fst (getTodoConfig_st rt baseDir (Some a) s))) = heap s
     \<and> (\<forall>m. snd (getTodoConfig_st rt baseDir (Some a) s) = Inr m \<longrightarrow>
           m \<noteq> a \<and> length (heap s) \<le> m)"
proof -
  assume a: "a < length (heap s)"
  from getTodoConfig_st_Some [OF a, of rt baseDir]
  obtain new where new: "heap (fst (getTodoConfig_st rt baseDir (Some a) s)) = heap s @ new"
    "\<forall>m. snd (getTodoConfig_st rt baseDir (Some a) s) = Inr m \<longrightarrow>
       length (heap s) \<le> m \<and> m < length (heap s @ new)"
    by blast
  with a show ?thesis
    by (auto simp: nth_append)
qed

theorem override_unchanged_witness:
  "(0::nat) < length (heap \<lparr>heap = [JObj [(''warn'', JNum (Fin 10)), (''error'', JNum (Fin 5))]],
                           module_cache = []\<rparr>)
   \<and> heap (fst (getTodoConfig_st (example_runtime None []) ''/project'' (Some 0)
            \<lparr>heap = [JObj [(''warn'', JNum (Fin 10)), (''error'', JNum (Fin 5))]],
              module_cache = []\<rparr>)) ! 0
       = JObj [(''warn'', JNum (Fin 10)), (''error'', JNum (Fin 5))]
   \<and> (\<exists>err. snd (getTodoConfig_st (example_runtime None []) ''/project'' (Some 0)
            \<lparr>heap = [JObj [(''warn'', JNum (Fin 10)), (''error'', JNum (Fin 5))]],
              module_cache = []\<rparr>) = Inl err)
   \<and> heap (fst (getTodoConfig_st
        (example_runtime
           (manifest_with (JObj [(''warn'', JNum (Fin 5)), (''error'', JNum (Fin 10))]))
           [(''TODO_DAYS_TO_WARN'', ''7'')])
        ''/project'' (Some 0)
        \<lparr>heap = [JObj [(''error'', JNum (Fin 20))]], module_cache = []\<rparr>)) ! 0
       = JObj [(''error'', JNum (Fin 20))]
   \<and> snd (getTodoConfig_st
        (example_runtime
           (manifest_with (JObj [(''warn'', JNum (Fin 5)), (''error'', JNum (Fin 10))]))
           [(''TODO_DAYS_TO_WARN'', ''7'')])
        ''/project'' (Some 0)
        \<lparr>heap = [JObj [(''error'', JNum (Fin 20))]], module_cache = []\<rparr>) = Inr 2"
proof -
  let ?s = "\<lparr>heap = [JObj [(''warn'', JNum (Fin 10)), (''error'', JNum (Fin 5))]],
             module_cache = []\<rparr>"
  let ?t = "\<lparr>heap = [JObj [(''error'', JNum (Fin 20))]], module_cache = []\<rparr>"
  let ?rt = "example_runtime
           (manifest_with (JObj [(''warn'', JNum (Fin 5)), (''error'', JNum (Fin 10))]))
           [(''TODO_DAYS_TO_WARN'', ''7'')]"
  have h: "(0::nat) < length (heap ?s)"
    by simp
  from override_unchanged [OF h, of "example_runtime None []" "''/project''"]
  have a: "heap (fst (getTodoConfig_st (example_runtime None []) ''/project'' (Some 0) ?s)) ! 0
          = JObj [(''warn'', JNum (Fin 10)), (''error'', JNum (Fin 5))]"
    by simp
  have k: "(0::nat) < length (heap ?t)"
    by simp
  from override_unchanged [OF k, of ?rt "''/project''"]
  have b: "heap (fst (getTodoConfig_st ?rt ''/project'' (Some 0) ?t)) ! 0
          = JObj [(''error'', JNum (Fin 20))]"
    by simp
  from h a b show ?thesis
    by (simp add: example_store_raise example_store_run)
qed

section \<open>Repeated calls\<close>

text \<open>
  Claim C7 as stated fails: the module cache of \<^verbatim>\<open>require\<close> is state that a call
  leaves to the calls after it. A call that finds the manifest section
  \<open>{warn: 5, error: 10}\<close> loads the manifest into the cache. When the manifest then
  changes to \<open>{warn: 1, error: 2}\<close>, the next call with the same arguments returns
  \<open>{warn: 5, error: 10}\<close>; the same call against the same manifest and the same
  environment in a process that has not loaded the manifest returns
  \<open>{warn: 1, error: 2}\<close>.
\<close>

theorem hidden_state_counterexample:
  "outcome (getTodoConfig_st
      (example_runtime (manifest_with (JObj [(''warn'', JNum (Fin 1)), (''error'', JNum (Fin 2))])) [])
      ''/project'' None \<lparr>heap = [], module_cache = []\<rparr>)
     = Inr (JObj [(''warn'', JNum (Fin 1)), (''error'', JNum (Fin 2))])
   \<and> outcome (getTodoConfig_st
      (example_runtime (manifest_with (JObj [(''warn'', JNum (Fin 1)), (''error'', JNum (Fin 2))])) [])
      ''/project'' None
      (fst (getTodoConfig_st
         (example_runtime
            (manifest_with (JObj [(''warn'', JNum (Fin 5)), (''error'', JNum (Fin 10))])) [])
         ''/project'' None \<lparr>heap = [], module_cache = []\<rparr>)))
     = Inr (JObj [(''warn'', JNum (Fin 5)), (''error'', JNum (Fin 10))])"
  by (simp add: example_store_fresh example_store_load example_store_cached outcome_def)

text \<open>
  Claim C7, as the code has it. The result of a call (the error, or the contents of
  the returned record) is a function of the base directory, the contents of the
  override, the environment, and what \<^verbatim>\<open>require\<close> gives for the path of the manifest:
  the value in the module cache when the manifest has been loaded in this process,
  the file otherwise. So
  \<^item> two calls that start with the same answer of \<^verbatim>\<open>require\<close> for the manifest, the
    same environment and overrides of the same contents give the same result;
  \<^item> a call repeated in the state the first one left, against the same manifest and
    environment, gives the same result: the first call writes to no object of the
    caller, and leaves the answers of \<^verbatim>\<open>require\<close> as they were;
  \<^item> after a call, the cache holds for the path of the manifest what \<^verbatim>\<open>require\<close> gave
    the call: a manifest that was loaded stays, for every later call of the process
    and whatever the file has become.
\<close>

theorem resolve_deterministic:
  assumes "case todoConfig of None \<Rightarrow> True | Some a \<Rightarrow> a < length (heap s)"
  shows "outcome (getTodoConfig_st rt baseDir todoConfig s) =
           getTodoConfig (rt\<lparr>require := cached_require rt s\<rparr>) baseDir
             (todoConfig_value s todoConfig)
         \<and> ((case todoConfig' of None \<Rightarrow> True | Some a \<Rightarrow> a < length (heap s'))
              \<and> cached_require rt s' (path_join rt baseDir ''package.json'') =
                  cached_require rt s (path_join rt baseDir ''package.json'')
              \<and> todoConfig_value s' todoConfig' = todoConfig_value s todoConfig
            \<longrightarrow> outcome (getTodoConfig_st rt baseDir todoConfig' s') =
                  outcome (getTodoConfig_st rt baseDir todoConfig s))
         \<and> outcome (getTodoConfig_st rt baseDir todoConfig
                      (fst (getTodoConfig_st rt baseDir todoConfig s))) =
           outcome (getTodoConfig_st rt baseDir todoConfig s)
         \<and> cached_require rt (fst (getTodoConfig_st rt baseDir todoConfig s)) =
           cached_require rt s
         \<and> map_of (module_cache (fst (getTodoConfig_st rt baseDir todoConfig s)))
             (path_join rt baseDir ''package.json'') =
           cached_require rt s (path_join rt baseDir ''package.json'')"
proof -
  let ?p = "path_join rt baseDir ''package.json''"
  let ?run = "getTodoConfig_st rt baseDir todoConfig s"
  have dep: "getTodoConfig (rt\<lparr>require := r\<rparr>) baseDir v =
               getTodoConfig (rt\<lparr>require := r'\<rparr>) baseDir v"
    if "r ?p = r' ?p" for r r' v
  proof -
    have "getFromPackageJson (rt\<lparr>require := r\<rparr>) baseDir =
            getFromPackageJson (rt\<lparr>require := r'\<rparr>) baseDir"
      using that by (simp add: getFromPackageJson_def)
    then show ?thesis
      unfolding getTodoConfig_def getFromEnvVars_cached invalid_message_cached by simp
  qed
  from getTodoConfig_st_refines [OF assms, of rt baseDir]
  obtain new where s1: "heap (fst ?run) = heap s @ new"
    and c1: "module_cache (fst ?run) = module_cache (fst (require_st rt ?p s))"
    and o1: "outcome ?run =
               getTodoConfig (rt\<lparr>require := cached_require rt s\<rparr>) baseDir
                 (todoConfig_value s todoConfig)"
    by blast
  have st: "cached_require rt (fst ?run) = cached_require rt s"
    using c1 require_st_stable [of rt ?p s] by (simp add: cached_require_def fun_eq_iff)
  have mc: "map_of (module_cache (fst ?run)) ?p = cached_require rt s ?p"
    unfolding c1 by (simp add: require_st_cache cached_require_def split: option.splits)
  have two: "outcome (getTodoConfig_st rt baseDir todoConfig' s') = outcome ?run"
    if wf': "case todoConfig' of None \<Rightarrow> True | Some a \<Rightarrow> a < length (heap s')"
      and c: "cached_require rt s' ?p = cached_require rt s ?p"
      and v: "todoConfig_value s' todoConfig' = todoConfig_value s todoConfig"
    for s' todoConfig'
  proof -
    from getTodoConfig_st_refines [OF wf', of rt baseDir]
    have "outcome (getTodoConfig_st rt baseDir todoConfig' s') =
            getTodoConfig (rt\<lparr>require := cached_require rt s'\<rparr>) baseDir
              (todoConfig_value s' todoConfig')"
      by blast
    also have "\<dots> = getTodoConfig (rt\<lparr>require := cached_require rt s\<rparr>) baseDir
              (todoConfig_value s todoConfig)"
      unfolding v by (rule dep) (rule c)
    finally show ?thesis
      by (simp add: o1)
  qed
  have wf: "case todoConfig of None \<Rightarrow> True | Some a \<Rightarrow> a < length (heap (fst ?run))"
    using assms s1 by (cases todoConfig) auto
  have val: "todoConfig_value (fst ?run) todoConfig = todoConfig_value s todoConfig"
    using assms s1 by (cases todoConfig) (auto simp: todoConfig_value_def nth_append)
  have again: "outcome (getTodoConfig_st rt baseDir todoConfig (fst ?run)) = outcome ?run"
    by (rule two [OF wf _ val]) (simp add: st)
  from o1 two again st mc show ?thesis
    by blast
qed

theorem resolve_deterministic_witness:
  "outcome (getTodoConfig_st
      (example_runtime (manifest_with (JObj [(''warn'', JNum (Fin 5)), (''error'', JNum (Fin 10))]))
         [(''TODO_DAYS_TO_WARN'', ''7'')])
      ''/project'' (Some 0)
      (fst (getTodoConfig_st
        (example_runtime (manifest_with (JObj [(''warn'', JNum (Fin 5)), (''error'', JNum (Fin 10))]))
           [(''TODO_DAYS_TO_WARN'', ''7'')])
        ''/project'' (Some 0) \<lparr>heap = [JObj [(''error'', JNum (Fin 20))]], module_cache = []\<rparr>)))
   = Inr (JObj [(''warn'', JNum (Fin 7)), (''error'', JNum (Fin 20))])
   \<and> outcome (getTodoConfig_st
      (example_runtime (manifest_with (JObj [(''warn'', JNum (Fin 5)), (''error'', JNum (Fin 10))]))
         [(''TODO_DAYS_TO_WARN'', ''7'')])
      ''/project'' (Some 1)
      \<lparr>heap = [JNull, JObj [(''error'', JNum (Fin 20))]], module_cache = []\<rparr>)
   = Inr (JObj [(''warn'', JNum (Fin 7)), (''error'', JNum (Fin 20))])
   \<and> map_of (module_cache (fst (getTodoConfig_st
        (example_runtime (manifest_with (JObj [(''warn'', JNum (Fin 5)), (''error'', JNum (Fin 10))]))
           [(''TODO_DAYS_TO_WARN'', ''7'')])
        ''/project'' (Some 0) \<lparr>heap = [JObj [(''error'', JNum (Fin 20))]], module_cache = []\<rparr>)))
       ''/project/package.json''
     = manifest_with (JObj [(''warn'', JNum (Fin 5)), (''error'', JNum (Fin 10))])"
proof -
  let ?rt = "example_runtime (manifest_with (JObj [(''warn'', JNum (Fin 5)), (''error'', JNum (Fin 10))]))
         [(''TODO_DAYS_TO_WARN'', ''7'')]"
  let ?s = "\<lparr>heap = [JObj [(''error'', JNum (Fin 20))]], module_cache = []\<rparr>"
  let ?s' = "\<lparr>heap = [JNull, JObj [(''error'', JNum (Fin 20))]], module_cache = []\<rparr>"
  have h: "case Some (0::nat) of None \<Rightarrow> True | Some a \<Rightarrow> a < length (heap ?s)"
    by simp
  note t = resolve_deterministic [OF h, of ?rt "''/project''" ?s' "Some 1"]
  have o: "outcome (getTodoConfig_st ?rt ''/project'' (Some 0) ?s)
             = Inr (JObj [(''warn'', JNum (Fin 7)), (''error'', JNum (Fin 20))])"
    by (simp add: example_store_run outcome_def)
  from t o have a: "outcome (getTodoConfig_st ?rt ''/project'' (Some 0)
             (fst (getTodoConfig_st ?rt ''/project'' (Some 0) ?s)))
           = Inr (JObj [(''warn'', JNum (Fin 7)), (''error'', JNum (Fin 20))])"
    by simp
  have p: "(case Some (1::nat) of None \<Rightarrow> True | Some a \<Rightarrow> a < length (heap ?s'))
             \<and> cached_require ?rt ?s' (path_join ?rt ''/project'' ''package.json'') =
                  cached_require ?rt ?s (path_join ?rt ''/project'' ''package.json'')
             \<and> todoConfig_value ?s' (Some 1) = todoConfig_value ?s (Some 0)"
    by (simp add: cached_require_def todoConfig_value_def)
  from t p o have b: "outcome (getTodoConfig_st ?rt ''/project'' (Some 1) ?s')
           = Inr (JObj [(''warn'', JNum (Fin 7)), (''error'', JNum (Fin 20))])"
    by simp
  from t have c: "map_of (module_cache (fst (getTodoConfig_st ?rt ''/project'' (Some 0) ?s)))
       ''/project/package.json''
     = manifest_with (JObj [(''warn'', JNum (Fin 5)), (''error'', JNum (Fin 10))])"
    by (simp add: cached_require_def example_require example_path_join)
  from a b c show ?thesis
    by blast
qed

end
